theory Spec2Isabelle
  imports Main "HOL-Library.Word"
begin

section \<open>JavaScript strings and buffers\<close>

text \<open>
  The loader is written in TypeScript for Node. A string value is modelled by the list of
  its code points (a surrogate pair is the one code point it encodes, an unpaired
  surrogate is itself), a \<open>Buffer\<close> by its list of bytes. The three conversions the
  source uses, \<open>Buffer.from(s, "base64")\<close>, \<open>Buffer.from(s)\<close> and
  \<open>buf.toString("utf-8")\<close>, belong to the runtime; they are written out here so that
  the loader's functions compute on concrete inputs. \<open>js\<close> turns a literal of the
  source into such a string.
\<close>

type_synonym byte = "8 word"
type_synonym jsstring = "nat list"

definition js :: "string \<Rightarrow> jsstring" where
  "js s = map of_char s"

abbreviation newline :: jsstring where
  "newline \<equiv> [0x0A]"

subsection \<open>UTF-8 decoding, with U+FFFD for every ill-formed sequence\<close>

text \<open>
  \<open>utf8_next b bs\<close> decodes the code point that starts at the lead byte \<open>b\<close>, followed by
  \<open>bs\<close>, and tells how many bytes of \<open>bs\<close> it has consumed. An ill-formed or truncated
  sequence yields U+FFFD and consumes the bytes that were accepted; the offending byte is
  looked at again as a lead byte.
\<close>

definition is_continuation :: "nat \<Rightarrow> bool" where
  "is_continuation b \<longleftrightarrow> 0x80 \<le> b \<and> b \<le> 0xBF"

definition lower_boundary :: "nat \<Rightarrow> nat" where
  "lower_boundary b = (if b = 0xE0 then 0xA0 else if b = 0xF0 then 0x90 else 0x80)"

definition upper_boundary :: "nat \<Rightarrow> nat" where
  "upper_boundary b = (if b = 0xED then 0x9F else if b = 0xF4 then 0x8F else 0xBF)"

definition is_second :: "nat \<Rightarrow> nat \<Rightarrow> bool" where
  "is_second b c \<longleftrightarrow> lower_boundary b \<le> c \<and> c \<le> upper_boundary b"

definition value2 :: "nat \<Rightarrow> nat \<Rightarrow> nat" where
  "value2 b c = (b - 0xC0) * 64 + (c - 0x80)"

definition value3 :: "nat \<Rightarrow> nat \<Rightarrow> nat \<Rightarrow> nat" where
  "value3 b c d = (b - 0xE0) * 4096 + (c - 0x80) * 64 + (d - 0x80)"

definition value4 :: "nat \<Rightarrow> nat \<Rightarrow> nat \<Rightarrow> nat \<Rightarrow> nat" where
  "value4 b c d e = (b - 0xF0) * 262144 + (c - 0x80) * 4096 + (d - 0x80) * 64 + (e - 0x80)"

definition utf8_next2 :: "nat \<Rightarrow> nat list \<Rightarrow> nat \<times> nat" where
  "utf8_next2 b bs =
     (case bs of
        [] \<Rightarrow> (0xFFFD, 0)
      | c # cs \<Rightarrow> if is_continuation c then (value2 b c, 1) else (0xFFFD, 0))"

definition utf8_next3 :: "nat \<Rightarrow> nat list \<Rightarrow> nat \<times> nat" where
  "utf8_next3 b bs =
     (case bs of
        [] \<Rightarrow> (0xFFFD, 0)
      | c # cs \<Rightarrow>
          if is_second b c then
            (case cs of
               [] \<Rightarrow> (0xFFFD, 1)
             | d # ds \<Rightarrow> if is_continuation d then (value3 b c d, 2) else (0xFFFD, 1))
          else (0xFFFD, 0))"

definition utf8_next4 :: "nat \<Rightarrow> nat list \<Rightarrow> nat \<times> nat" where
  "utf8_next4 b bs =
     (case bs of
        [] \<Rightarrow> (0xFFFD, 0)
      | c # cs \<Rightarrow>
          if is_second b c then
            (case cs of
               [] \<Rightarrow> (0xFFFD, 1)
             | d # ds \<Rightarrow>
                 if is_continuation d then
                   (case ds of
                      [] \<Rightarrow> (0xFFFD, 2)
                    | e # es \<Rightarrow> if is_continuation e then (value4 b c d e, 3) else (0xFFFD, 2))
                 else (0xFFFD, 1))
          else (0xFFFD, 0))"

definition utf8_next :: "nat \<Rightarrow> nat list \<Rightarrow> nat \<times> nat" where
  "utf8_next b bs =
    (if b < 0x80 then (b, 0)
     else if 0xC2 \<le> b \<and> b \<le> 0xDF then utf8_next2 b bs
     else if 0xE0 \<le> b \<and> b \<le> 0xEF then utf8_next3 b bs
     else if 0xF0 \<le> b \<and> b \<le> 0xF4 then utf8_next4 b bs
     else (0xFFFD, 0))"

fun utf8_decode :: "nat list \<Rightarrow> nat list" where
  "utf8_decode [] = []"
| "utf8_decode (b # bs) = fst (utf8_next b bs) # utf8_decode (drop (snd (utf8_next b bs)) bs)"

definition scalar :: "nat \<Rightarrow> bool" where
  "scalar c \<longleftrightarrow> c < 0x110000 \<and> \<not> (0xD800 \<le> c \<and> c \<le> 0xDFFF)"

definition utf8_encode_cp :: "nat \<Rightarrow> nat list" where
  "utf8_encode_cp c =
    (if c < 0x80 then [c]
     else if c < 0x800 then [0xC0 + c div 64, 0x80 + c mod 64]
     else if \<not> scalar c then [0xEF, 0xBF, 0xBD]
     else if c < 0x10000 then [0xE0 + c div 4096, 0x80 + c div 64 mod 64, 0x80 + c mod 64]
     else [0xF0 + c div 262144, 0x80 + c div 4096 mod 64, 0x80 + c div 64 mod 64, 0x80 + c mod 64])"

definition utf8_encode :: "nat list \<Rightarrow> nat list" where
  "utf8_encode s = concat (map utf8_encode_cp s)"

definition toString_utf8 :: "byte list \<Rightarrow> jsstring" where
  "toString_utf8 buf = utf8_decode (map unat buf)"

definition Buffer_from_utf8 :: "jsstring \<Rightarrow> byte list" where
  "Buffer_from_utf8 s = map of_nat (utf8_encode s)"

subsection \<open>Base64 decoding\<close>

text \<open>
  The decoder reads the string by its UTF-16 code units and looks at the low byte of
  each. Characters outside the alphabet (line breaks among them) are skipped, both the
  standard and the URL-safe alphabet are accepted, and decoding stops at the first
  padding character.
\<close>

definition code_units :: "jsstring \<Rightarrow> nat list" where
  "code_units s =
     concat (map (\<lambda>c. if c < 0x10000 then [c]
                      else [0xD800 + (c - 0x10000) div 0x400, 0xDC00 + (c - 0x10000) mod 0x400]) s)"

definition unbase64 :: "nat \<Rightarrow> nat option" where
  "unbase64 c =
     (if 0x41 \<le> c \<and> c \<le> 0x5A then Some (c - 0x41)
      else if 0x61 \<le> c \<and> c \<le> 0x7A then Some (c - 0x61 + 26)
      else if 0x30 \<le> c \<and> c \<le> 0x39 then Some (c - 0x30 + 52)
      else if c = 0x2B \<or> c = 0x2D then Some 62
      else if c = 0x2F \<or> c = 0x5F then Some 63
      else None)"

fun sextets :: "nat list \<Rightarrow> nat list" where
  "sextets [] = []"
| "sextets (c # cs) =
     (if c = 0x3D then []
      else case unbase64 c of Some v \<Rightarrow> v # sextets cs | None \<Rightarrow> sextets cs)"

fun base64_bytes :: "nat list \<Rightarrow> nat list" where
  "base64_bytes (a # b # c # d # rest) =
     (a * 4 + b div 16) # (b mod 16 * 16 + c div 4) # (c mod 4 * 64 + d) # base64_bytes rest"
| "base64_bytes [a, b, c] = [a * 4 + b div 16, b mod 16 * 16 + c div 4]"
| "base64_bytes [a, b] = [a * 4 + b div 16]"
| "base64_bytes _ = []"

definition Buffer_from_base64 :: "jsstring \<Rightarrow> byte list" where
  "Buffer_from_base64 s =
     map of_nat (base64_bytes (sextets (map (\<lambda>u. u mod 256) (code_units s))))"

subsection \<open>String operations\<close>

fun split_on :: "nat \<Rightarrow> jsstring \<Rightarrow> jsstring list" where
  "split_on sep [] = [[]]"
| "split_on sep (c # cs) =
     (if c = sep then [] # split_on sep cs
      else case split_on sep cs of
             [] \<Rightarrow> [[c]]
           | l # ls \<Rightarrow> (c # l) # ls)"

definition is_white_space :: "nat \<Rightarrow> bool" where
  "is_white_space c \<longleftrightarrow>
     c \<in> {0x09, 0x0A, 0x0B, 0x0C, 0x0D, 0x20, 0xA0, 0x1680, 0x2028, 0x2029, 0x202F, 0x205F,
          0x3000, 0xFEFF}
     \<or> (0x2000 \<le> c \<and> c \<le> 0x200A)"

definition trim :: "jsstring \<Rightarrow> jsstring" where
  "trim s = rev (dropWhile is_white_space (rev (dropWhile is_white_space s)))"

definition startsWith :: "jsstring \<Rightarrow> jsstring \<Rightarrow> bool" where
  "startsWith s p \<longleftrightarrow> take (length p) s = p"

fun join :: "jsstring \<Rightarrow> jsstring list \<Rightarrow> jsstring" where
  "join sep [] = []"
| "join sep [x] = x"
| "join sep (x # y # ys) = x @ sep @ join sep (y # ys)"

fun filter_Boolean :: "'a option list \<Rightarrow> 'a list" where
  "filter_Boolean [] = []"
| "filter_Boolean (None # xs) = filter_Boolean xs"
| "filter_Boolean (Some x # xs) = x # filter_Boolean xs"

section \<open>The loader\<close>

subsection \<open>Data\<close>

text \<open>
  An entry of the tree listing has a \<open>path\<close> and a \<open>type\<close> (\<open>blob\<close>, \<open>tree\<close>,
  \<open>commit\<close>); a fetched file has a \<open>path\<close> and a \<open>content\<close>. \<open>fetchFileContent\<close>
  takes any object with a \<open>path\<close>. A failure is a JavaScript \<open>Error\<close> with its
  message, raised by the loader itself, or a request error with its HTTP status, raised
  by the client.
\<close>

record file_ref =
  path :: jsstring

record tree_item = file_ref +
  type :: jsstring

record FetchedFile = file_ref +
  content :: jsstring

datatype error = Error jsstring | RequestError nat

datatype Output = Collection "FetchedFile list" | Text jsstring | Bytes "byte list"

text \<open>
  A snapshot of the remote service, as the Octokit client presents it: what each of the
  four endpoints the loader calls answers, or the error it raises. \<open>repos_getCommit\<close>
  gives the tree SHA of the commit when the response carries one, \<open>repos_getContent\<close>
  the base64 \<open>content\<close> field when the response has one.
\<close>

record github =
  rateLimit_get :: "error + nat"
  repos_getCommit :: "jsstring \<Rightarrow> jsstring \<Rightarrow> jsstring \<Rightarrow> error + jsstring option"
  git_getTree :: "jsstring \<Rightarrow> jsstring \<Rightarrow> jsstring \<Rightarrow> error + tree_item list"
  repos_getContent :: "jsstring \<Rightarrow> jsstring \<Rightarrow> jsstring \<Rightarrow> error + jsstring option"

datatype request =
    RateLimitGet
  | GetCommit jsstring jsstring jsstring
  | GetTree jsstring jsstring jsstring
  | GetContent jsstring jsstring jsstring

record RateLimitConfig =
  concurrency :: nat
  intervalMs :: nat
  requestsPerInterval :: nat
  retries :: nat

record RateLimitOptions =
  concurrency_opt :: "nat option"
  intervalMs_opt :: "nat option"
  requestsPerInterval_opt :: "nat option"
  retries_opt :: "nat option"

text \<open>
  The instance. \<open>rateLimitManager\<close> holds the configuration handed to the scheduler of
  package \<open>safe-calls\<close>; \<open>requests\<close> stands for the Octokit client: the log of the
  requests issued through it, oldest first.
\<close>

record GitHubRepoLoader =
  rateLimitManager :: RateLimitConfig
  ignoredFiles :: "jsstring set"
  requests :: "request list"

subsection \<open>Operations\<close>

text \<open>
  Every method takes the snapshot and the instance and returns its result, or the error
  it throws, together with the instance afterwards. Arguments are the values after the
  defaults of the signature have been filled in (\<open>branch = "main"\<close>,
  \<open>decodeContent = false\<close>, \<open>ignoreGitIgnoreFiles = true\<close>, \<open>outputFormat = "json"\<close>);
  an absent \<open>filterFn\<close> is \<open>None\<close>.
\<close>

definition constructor :: "jsstring \<Rightarrow> RateLimitOptions option \<Rightarrow> GitHubRepoLoader" where
  "constructor authToken options =
     \<lparr>rateLimitManager =
        \<lparr>concurrency = (case Option.bind options concurrency_opt of None \<Rightarrow> 1 | Some n \<Rightarrow> n),
         intervalMs = (case Option.bind options intervalMs_opt of None \<Rightarrow> 1000 | Some n \<Rightarrow> n),
         requestsPerInterval =
           (case Option.bind options requestsPerInterval_opt of None \<Rightarrow> 1 | Some n \<Rightarrow> n),
         retries = (case Option.bind options retries_opt of None \<Rightarrow> 3 | Some n \<Rightarrow> n)\<rparr>,
      ignoredFiles = {},
      requests = []\<rparr>"

text \<open>
  \<open>wrapWithRateLimit\<close> hands the call to the scheduler, which is not part of this
  repository and may delay the call or repeat it after a failure. A wrapped call is
  modelled by its outcome, the snapshot's answer, and by its entry in the request log.
\<close>

definition wrapWithRateLimit ::
  "request \<Rightarrow> error + 'a \<Rightarrow> GitHubRepoLoader \<Rightarrow> (error + 'a) \<times> GitHubRepoLoader" where
  "wrapWithRateLimit rq outcome \<sigma> = (outcome, \<sigma>\<lparr>requests := requests \<sigma> @ [rq]\<rparr>)"

definition fetchRateLimit :: "github \<Rightarrow> GitHubRepoLoader \<Rightarrow> (error + nat) \<times> GitHubRepoLoader" where
  "fetchRateLimit gh \<sigma> = wrapWithRateLimit RateLimitGet (rateLimit_get gh) \<sigma>"

definition loadGitignore ::
  "github \<Rightarrow> GitHubRepoLoader \<Rightarrow> jsstring \<Rightarrow> jsstring \<Rightarrow> GitHubRepoLoader" where
  "loadGitignore gh \<sigma> owner repo =
     (case wrapWithRateLimit (GetContent owner repo (js ''.gitignore''))
             (repos_getContent gh owner repo (js ''.gitignore'')) \<sigma> of
        (Inl e, \<sigma>') \<Rightarrow> \<sigma>'
      | (Inr None, \<sigma>') \<Rightarrow> \<sigma>'
      | (Inr (Some data), \<sigma>') \<Rightarrow>
          (let gitignoreContent = toString_utf8 (Buffer_from_base64 data)
           in \<sigma>'\<lparr>ignoredFiles :=
                  set (filter (\<lambda>line. line \<noteq> [] \<and> \<not> startsWith line (js ''#''))
                        (map trim (split_on 0x0A gitignoreContent)))\<rparr>))"

definition getRepoFiles ::
  "github \<Rightarrow> GitHubRepoLoader \<Rightarrow> jsstring \<Rightarrow> jsstring \<Rightarrow> jsstring \<Rightarrow> (jsstring \<Rightarrow> bool) option
     \<Rightarrow> (error + tree_item list) \<times> GitHubRepoLoader" where
  "getRepoFiles gh \<sigma> owner repo branch filterFn =
     (case wrapWithRateLimit (GetCommit owner repo branch) (repos_getCommit gh owner repo branch) \<sigma> of
        (Inl e, \<sigma>') \<Rightarrow> (Inl e, \<sigma>')
      | (Inr treeSha, \<sigma>') \<Rightarrow>
          (case treeSha of
             None \<Rightarrow> (Inl (Error (js ''Tree SHA not found'')), \<sigma>')
           | Some sha \<Rightarrow>
               if sha = [] then (Inl (Error (js ''Tree SHA not found'')), \<sigma>')
               else
                 (case wrapWithRateLimit (GetTree owner repo sha) (git_getTree gh owner repo sha) \<sigma>' of
                    (Inl e, \<sigma>'') \<Rightarrow> (Inl e, \<sigma>'')
                  | (Inr tree, \<sigma>'') \<Rightarrow>
                      (Inr (filter (\<lambda>item.
                              type item = js ''blob'' \<and>
                              (case filterFn of None \<Rightarrow> True | Some f \<Rightarrow> f (path item)) \<and>
                              path item \<notin> ignoredFiles \<sigma>'') tree),
                       \<sigma>''))))"

definition fetchFileContent ::
  "github \<Rightarrow> GitHubRepoLoader \<Rightarrow> jsstring \<Rightarrow> jsstring \<Rightarrow> 'a file_ref_scheme \<Rightarrow> bool
     \<Rightarrow> (error + FetchedFile option) \<times> GitHubRepoLoader" where
  "fetchFileContent gh \<sigma> owner repo file decodeContent =
     (case wrapWithRateLimit (GetContent owner repo (path file))
             (repos_getContent gh owner repo (path file)) \<sigma> of
        (Inl e, \<sigma>') \<Rightarrow> (Inl e, \<sigma>')
      | (Inr None, \<sigma>') \<Rightarrow> (Inr None, \<sigma>')
      | (Inr (Some data), \<sigma>') \<Rightarrow>
          (let buf = Buffer_from_base64 data;
               buf = (if decodeContent then Buffer_from_utf8 (toString_utf8 buf) else buf)
           in (Inr (Some \<lparr>path = path file, content = toString_utf8 buf\<rparr>), \<sigma>')))"

definition render :: "FetchedFile \<Rightarrow> jsstring" where
  "render f =
     js ''File: '' @ path f @ newline @ js ''Content:'' @ newline @ content f @ newline
       @ js ''---'' @ newline"

definition formatOutput :: "FetchedFile list \<Rightarrow> jsstring \<Rightarrow> error + Output" where
  "formatOutput files format =
     (if format = js ''json'' then Inr (Collection files)
      else if format = js ''string'' then Inr (Text (join newline (map render files)))
      else if format = js ''buffer'' then
        Inr (Bytes (Buffer_from_utf8 (join newline (map render files))))
      else Inl (Error (js ''Unsupported output format: '' @ format)))"

text \<open>
  \<open>Promise.all\<close>: the results keep the positions of their promises; when some promise
  rejects, the whole rejects with the rejection that settles first. \<open>settle i\<close> is the
  time at which the promise at index \<open>i\<close> settles.
\<close>

fun rejections :: "nat \<Rightarrow> (error + 'a) list \<Rightarrow> (nat \<times> error) list" where
  "rejections i [] = []"
| "rejections i (Inl e # ps) = (i, e) # rejections (Suc i) ps"
| "rejections i (Inr x # ps) = rejections (Suc i) ps"

fun fulfilled :: "(error + 'a) list \<Rightarrow> 'a list" where
  "fulfilled [] = []"
| "fulfilled (Inl e # ps) = fulfilled ps"
| "fulfilled (Inr x # ps) = x # fulfilled ps"

definition Promise_all :: "(nat \<Rightarrow> nat) \<Rightarrow> (error + 'a) list \<Rightarrow> error + 'a list" where
  "Promise_all settle ps =
     (case sort_key (\<lambda>r. settle (fst r)) (rejections 0 ps) of
        [] \<Rightarrow> Inr (fulfilled ps)
      | r # _ \<Rightarrow> Inl (snd r))"

text \<open>\<open>files.map(async (file) => this.fetchFileContent(...))\<close>: one request per file.\<close>

fun fetchFileContents ::
  "github \<Rightarrow> GitHubRepoLoader \<Rightarrow> jsstring \<Rightarrow> jsstring \<Rightarrow> tree_item list \<Rightarrow> bool
     \<Rightarrow> (error + FetchedFile option) list \<times> GitHubRepoLoader" where
  "fetchFileContents gh \<sigma> owner repo [] decodeContent = ([], \<sigma>)"
| "fetchFileContents gh \<sigma> owner repo (file # files) decodeContent =
     (case fetchFileContent gh \<sigma> owner repo file decodeContent of
        (p, \<sigma>') \<Rightarrow>
          (case fetchFileContents gh \<sigma>' owner repo files decodeContent of
             (ps, \<sigma>'') \<Rightarrow> (p # ps, \<sigma>'')))"

definition fetchRepoContent ::
  "github \<Rightarrow> (nat \<Rightarrow> nat) \<Rightarrow> GitHubRepoLoader \<Rightarrow> jsstring \<Rightarrow> jsstring \<Rightarrow> jsstring \<Rightarrow> bool \<Rightarrow> bool
     \<Rightarrow> jsstring \<Rightarrow> (jsstring \<Rightarrow> bool) option \<Rightarrow> (error + Output) \<times> GitHubRepoLoader" where
  "fetchRepoContent gh settle \<sigma> owner repo branch decodeContent ignoreGitIgnoreFiles outputFormat
       filterFn =
     (case fetchRateLimit gh \<sigma> of
        (Inl e, \<sigma>1) \<Rightarrow> (Inl e, \<sigma>1)
      | (Inr remaining, \<sigma>1) \<Rightarrow>
          if remaining = 0 then
            (Inl (Error (js ''GitHub Rate limit exceeded. Please try again later.'')), \<sigma>1)
          else
            (let \<sigma>2 = (if ignoreGitIgnoreFiles then loadGitignore gh \<sigma>1 owner repo else \<sigma>1)
             in case getRepoFiles gh \<sigma>2 owner repo branch filterFn of
                  (Inl e, \<sigma>3) \<Rightarrow> (Inl e, \<sigma>3)
                | (Inr files, \<sigma>3) \<Rightarrow>
                    (case fetchFileContents gh \<sigma>3 owner repo files decodeContent of
                       (promises, \<sigma>4) \<Rightarrow>
                         (case Promise_all settle promises of
                            Inl e \<Rightarrow> (Inl e, \<sigma>4)
                          | Inr contents \<Rightarrow>
                              (formatOutput (filter_Boolean contents) outputFormat, \<sigma>4)))))"

text \<open>
  The generator, run to its end: the items it yields in order, the error that ends it
  (if one does), and the instance afterwards.
\<close>

fun stream_files ::
  "github \<Rightarrow> GitHubRepoLoader \<Rightarrow> jsstring \<Rightarrow> jsstring \<Rightarrow> tree_item list \<Rightarrow> bool \<Rightarrow> jsstring
     \<Rightarrow> Output list \<times> error option \<times> GitHubRepoLoader" where
  "stream_files gh \<sigma> owner repo [] decodeContent outputFormat = ([], None, \<sigma>)"
| "stream_files gh \<sigma> owner repo (file # files) decodeContent outputFormat =
     (case fetchFileContent gh \<sigma> owner repo file decodeContent of
        (Inl e, \<sigma>') \<Rightarrow> ([], Some e, \<sigma>')
      | (Inr None, \<sigma>') \<Rightarrow> stream_files gh \<sigma>' owner repo files decodeContent outputFormat
      | (Inr (Some fetched), \<sigma>') \<Rightarrow>
          (case formatOutput [fetched] outputFormat of
             Inl e \<Rightarrow> ([], Some e, \<sigma>')
           | Inr item \<Rightarrow>
               (case stream_files gh \<sigma>' owner repo files decodeContent outputFormat of
                  (items, thrown, \<sigma>'') \<Rightarrow> (item # items, thrown, \<sigma>''))))"

definition fetchRepoContentStream ::
  "github \<Rightarrow> GitHubRepoLoader \<Rightarrow> jsstring \<Rightarrow> jsstring \<Rightarrow> jsstring \<Rightarrow> bool \<Rightarrow> bool
     \<Rightarrow> jsstring \<Rightarrow> (jsstring \<Rightarrow> bool) option \<Rightarrow> Output list \<times> error option \<times> GitHubRepoLoader" where
  "fetchRepoContentStream gh \<sigma> owner repo branch decodeContent ignoreGitIgnoreFiles outputFormat
       filterFn =
     (case fetchRateLimit gh \<sigma> of
        (Inl e, \<sigma>1) \<Rightarrow> ([], Some e, \<sigma>1)
      | (Inr remaining, \<sigma>1) \<Rightarrow>
          if remaining = 0 then
            ([], Some (Error (js ''GitHub Rate limit exceeded. Please try again later.'')), \<sigma>1)
          else
            (let \<sigma>2 = (if ignoreGitIgnoreFiles then loadGitignore gh \<sigma>1 owner repo else \<sigma>1)
             in case getRepoFiles gh \<sigma>2 owner repo branch filterFn of
                  (Inl e, \<sigma>3) \<Rightarrow> ([], Some e, \<sigma>3)
                | (Inr files, \<sigma>3) \<Rightarrow>
                    stream_files gh \<sigma>3 owner repo files decodeContent outputFormat))"

section \<open>Notions used in the statements\<close>

text \<open>A string of Unicode text: every code point is a scalar value (no surrogate).\<close>

definition well_formed :: "jsstring \<Rightarrow> bool" where
  "well_formed s = list_all scalar s"

text \<open>What the consumer of the stream gathers from the collections it is handed.\<close>

fun collect :: "Output list \<Rightarrow> FetchedFile list" where
  "collect [] = []"
| "collect (Collection fs # items) = fs @ collect items"
| "collect (item # items) = collect items"

text \<open>The remote answer for an entry has a content payload.\<close>

definition content_bearing :: "github \<Rightarrow> jsstring \<Rightarrow> jsstring \<Rightarrow> 'a file_ref_scheme \<Rightarrow> bool" where
  "content_bearing gh owner repo file =
     (case repos_getContent gh owner repo (path file) of
        Inr (Some data) \<Rightarrow> True
      | _ \<Rightarrow> False)"

text \<open>The entry an enumerated file with payload \<open>data\<close> stands for in the result.\<close>

definition entry_of :: "'a file_ref_scheme \<Rightarrow> jsstring \<Rightarrow> FetchedFile" where
  "entry_of file data = \<lparr>path = path file, content = toString_utf8 (Buffer_from_base64 data)\<rparr>"

definition entries_of :: "github \<Rightarrow> jsstring \<Rightarrow> jsstring \<Rightarrow> tree_item list \<Rightarrow> FetchedFile list" where
  "entries_of gh owner repo files =
     concat (map (\<lambda>file. case repos_getContent gh owner repo (path file) of
                          Inr (Some data) \<Rightarrow> [entry_of file data]
                        | _ \<Rightarrow> []) files)"

text \<open>The outcome of the content request for one enumerated file.\<close>

definition file_result ::
  "github \<Rightarrow> jsstring \<Rightarrow> jsstring \<Rightarrow> 'a file_ref_scheme \<Rightarrow> error + FetchedFile option" where
  "file_result gh owner repo file =
     (case repos_getContent gh owner repo (path file) of
        Inl e \<Rightarrow> Inl e
      | Inr None \<Rightarrow> Inr None
      | Inr (Some data) \<Rightarrow> Inr (Some (entry_of file data)))"

text \<open>
  The steps both top-level operations run before any content is fetched: the quota
  check, the ignore file when asked for, and the enumeration.
\<close>

definition enumeration ::
  "github \<Rightarrow> GitHubRepoLoader \<Rightarrow> jsstring \<Rightarrow> jsstring \<Rightarrow> jsstring \<Rightarrow> bool
     \<Rightarrow> (jsstring \<Rightarrow> bool) option \<Rightarrow> (error + tree_item list) \<times> GitHubRepoLoader" where
  "enumeration gh \<sigma> owner repo branch ignoreGitIgnoreFiles filterFn =
     (case fetchRateLimit gh \<sigma> of
        (Inl e, \<sigma>1) \<Rightarrow> (Inl e, \<sigma>1)
      | (Inr remaining, \<sigma>1) \<Rightarrow>
          if remaining = 0 then
            (Inl (Error (js ''GitHub Rate limit exceeded. Please try again later.'')), \<sigma>1)
          else getRepoFiles gh (if ignoreGitIgnoreFiles then loadGitignore gh \<sigma>1 owner repo else \<sigma>1)
                 owner repo branch filterFn)"

subsection \<open>An example snapshot\<close>

text \<open>
  Two repositories of owner \<open>o\<close> with the same tree. Repository \<open>A\<close> has a
  \<open>.gitignore\<close> with the lines \<open># x\<close>, \<open>a.txt\<close> and \<open>secret/\<close>; repository \<open>B\<close> has
  none (the request fails with status 404). \<open>a.txt\<close> holds \<open>hi\<close>, \<open>secret/key.pem\<close>
  the bytes \<open>E2 82 AC FF\<close>, and \<open>link\<close> is a blob whose answer has no content.
\<close>

definition example_tree :: "tree_item list" where
  "example_tree =
     [\<lparr>path = js ''a.txt'', type = js ''blob''\<rparr>,
      \<lparr>path = js ''secret'', type = js ''tree''\<rparr>,
      \<lparr>path = js ''secret/key.pem'', type = js ''blob''\<rparr>,
      \<lparr>path = js ''link'', type = js ''blob''\<rparr>]"

definition example_github :: github where
  "example_github =
     \<lparr>rateLimit_get = Inr 4999,
      repos_getCommit = (\<lambda>owner repo ref.
        if ref = js ''main'' then Inr (Some (js ''t1'')) else Inl (RequestError 404)),
      git_getTree = (\<lambda>owner repo sha. Inr example_tree),
      repos_getContent = (\<lambda>owner repo p.
        if p = js ''.gitignore'' then
          (if repo = js ''A'' then Inr (Some (js ''IyB4CmEudHh0CnNlY3JldC8K''))
           else Inl (RequestError 404))
        else if p = js ''a.txt'' then Inr (Some (js ''aGk=''))
        else if p = js ''secret/key.pem'' then Inr (Some (js ''4oKs/w==''))
        else if p = js ''link'' then Inr None
        else Inl (RequestError 404))\<rparr>"

section \<open>String literals\<close>

lemma js_eq_iff [simp]: "js a = js b \<longleftrightarrow> a = b"
  by (simp add: js_def inj_map_eq_map inj_of_char)

lemma js_eq_Nil [simp]: "js a = [] \<longleftrightarrow> a = []"
  by (simp add: js_def)

lemma js_length [simp]: "length (js a) = length a"
  by (simp add: js_def)

section \<open>UTF-8: decoding yields text, and decoding undoes encoding of text\<close>

lemma scalar_FFFD: "scalar 0xFFFD"
  by (simp add: scalar_def)

lemma value2_scalar:
  assumes "b \<le> 0xDF" and "is_continuation c"
  shows "scalar (value2 b c)"
proof -
  have "b - 0xC0 \<le> 31" using assms(1) by arith
  moreover have "c - 0x80 \<le> 63" using assms(2) unfolding is_continuation_def by arith
  ultimately have "(b - 0xC0) * 64 + (c - 0x80) < 0x800" by arith
  then show ?thesis unfolding scalar_def value2_def by arith
qed

lemma value3_scalar:
  assumes "0xE0 \<le> b" "b \<le> 0xEF" and "is_second b c" and "is_continuation d"
  shows "scalar (value3 b c d)"
proof -
  define x y z where "x = b - 0xE0" and "y = c - 0x80" and "z = d - 0x80"
  have x: "x \<le> 15" using assms(2) unfolding x_def by arith
  have z: "z \<le> 63" using assms(4) unfolding z_def is_continuation_def by arith
  have "c \<le> 0xBF"
    using assms(3) by (simp add: is_second_def upper_boundary_def split: if_splits)
  then have y: "y \<le> 63" unfolding y_def by arith
  have y13: "y \<le> 31" if "x = 13"
  proof -
    from that have "b = 0xED" using assms(1) unfolding x_def by arith
    then have "c \<le> 0x9F" using assms(3) by (simp add: is_second_def upper_boundary_def)
    then show "y \<le> 31" unfolding y_def by arith
  qed
  consider "x \<le> 12" | "x = 13" | "14 \<le> x" by arith
  then have "x * 4096 + y * 64 + z < 0xD800 \<or>
    (0xE000 \<le> x * 4096 + y * 64 + z \<and> x * 4096 + y * 64 + z < 0x10000)"
  proof cases
    case 1 then show ?thesis using y z by arith
  next
    case 2 then show ?thesis using y13 z by arith
  next
    case 3 then show ?thesis using x y z by arith
  qed
  then show ?thesis unfolding scalar_def value3_def x_def y_def z_def by arith
qed

lemma value4_scalar:
  assumes "0xF0 \<le> b" "b \<le> 0xF4" and "is_second b c"
    and "is_continuation d" "is_continuation e"
  shows "scalar (value4 b c d e)"
proof -
  define x y z w where "x = b - 0xF0" and "y = c - 0x80" and "z = d - 0x80" and "w = e - 0x80"
  have x: "x \<le> 4" using assms(2) unfolding x_def by arith
  have z: "z \<le> 63" using assms(4) unfolding z_def is_continuation_def by arith
  have w: "w \<le> 63" using assms(5) unfolding w_def is_continuation_def by arith
  have "c \<le> 0xBF"
    using assms(3) by (simp add: is_second_def upper_boundary_def split: if_splits)
  then have y: "y \<le> 63" unfolding y_def by arith
  have y4: "y \<le> 15" if "x = 4"
  proof -
    from that have "b = 0xF4" using assms(1) unfolding x_def by arith
    then have "c \<le> 0x8F" using assms(3) by (simp add: is_second_def upper_boundary_def)
    then show "y \<le> 15" unfolding y_def by arith
  qed
  have y0: "16 \<le> y" if "x = 0"
  proof -
    from that have "b = 0xF0" using assms(1,2) unfolding x_def by arith
    then have "0x90 \<le> c" using assms(3) by (simp add: is_second_def lower_boundary_def)
    then show "16 \<le> y" unfolding y_def by arith
  qed
  consider "x = 0" | "1 \<le> x" "x \<le> 3" | "x = 4" using x by arith
  then have "0x10000 \<le> x * 262144 + y * 4096 + z * 64 + w \<and>
     x * 262144 + y * 4096 + z * 64 + w < 0x110000"
  proof cases
    case 1 then show ?thesis using y0 y z w by arith
  next
    case 2 then show ?thesis using y z w by arith
  next
    case 3 then show ?thesis using y4 z w by arith
  qed
  then show ?thesis unfolding scalar_def value4_def x_def y_def z_def w_def by arith
qed

lemma utf8_next2_scalar: "b \<le> 0xDF \<Longrightarrow> scalar (fst (utf8_next2 b bs))"
  by (simp add: utf8_next2_def scalar_FFFD value2_scalar split: list.splits)

lemma utf8_next3_scalar: "0xE0 \<le> b \<Longrightarrow> b \<le> 0xEF \<Longrightarrow> scalar (fst (utf8_next3 b bs))"
  by (simp add: utf8_next3_def scalar_FFFD value3_scalar split: list.splits)

lemma utf8_next4_scalar: "0xF0 \<le> b \<Longrightarrow> b \<le> 0xF4 \<Longrightarrow> scalar (fst (utf8_next4 b bs))"
  by (simp add: utf8_next4_def scalar_FFFD value4_scalar split: list.splits)

lemma utf8_next_scalar: "scalar (fst (utf8_next b bs))"
proof -
  have "b < 0x80 \<Longrightarrow> scalar b" unfolding scalar_def by arith
  then show ?thesis
    by (simp add: utf8_next_def scalar_FFFD utf8_next2_scalar utf8_next3_scalar utf8_next4_scalar)
qed

lemma utf8_decode_scalar: "c \<in> set (utf8_decode bs) \<Longrightarrow> scalar c"
  by (induction bs rule: utf8_decode.induct) (auto simp: utf8_next_scalar)

lemma split3: "(c::nat) = c div 4096 * 4096 + c div 64 mod 64 * 64 + c mod 64"
proof -
  have "c div 4096 = c div 64 div 64" by (simp add: div_mult2_eq[symmetric])
  moreover have "c div 64 = c div 64 div 64 * 64 + c div 64 mod 64" by simp
  moreover have "c = c div 64 * 64 + c mod 64" by simp
  ultimately show ?thesis by arith
qed

lemma split4:
  "(c::nat) = c div 262144 * 262144 + c div 4096 mod 64 * 4096 + c div 64 mod 64 * 64 + c mod 64"
proof -
  have "c div 262144 = c div 4096 div 64" by (simp add: div_mult2_eq[symmetric])
  moreover have "c div 4096 = c div 4096 div 64 * 64 + c div 4096 mod 64" by simp
  moreover note split3[of c]
  ultimately show ?thesis by arith
qed

lemma utf8_next_encode1:
  assumes "c < 0x80"
  shows "utf8_encode_cp c = [c]" and "utf8_next c rest = (c, 0)"
  using assms by (simp_all add: utf8_encode_cp_def utf8_next_def)

lemma utf8_next_encode2:
  assumes "0x80 \<le> c" "c < 0x800"
  shows "utf8_encode_cp c = [0xC0 + c div 64, 0x80 + c mod 64]"
    and "utf8_next (0xC0 + c div 64) ((0x80 + c mod 64) # rest) = (c, 1)"
proof -
  show "utf8_encode_cp c = [0xC0 + c div 64, 0x80 + c mod 64]"
    using assms by (simp add: utf8_encode_cp_def)
  have lead: "\<not> 0xC0 + c div 64 < 0x80" "0xC2 \<le> 0xC0 + c div 64" "0xC0 + c div 64 \<le> 0xDF"
    using assms by arith+
  have cont: "is_continuation (0x80 + c mod 64)"
    unfolding is_continuation_def by arith
  have val: "value2 (0xC0 + c div 64) (0x80 + c mod 64) = c"
    unfolding value2_def by simp
  show "utf8_next (0xC0 + c div 64) ((0x80 + c mod 64) # rest) = (c, 1)"
    using lead cont val by (simp add: utf8_next_def utf8_next2_def)
qed

lemma utf8_next_encode3:
  assumes "0x800 \<le> c" "c < 0x10000" "scalar c"
  shows "utf8_encode_cp c = [0xE0 + c div 4096, 0x80 + c div 64 mod 64, 0x80 + c mod 64]"
    and "utf8_next (0xE0 + c div 4096) ((0x80 + c div 64 mod 64) # (0x80 + c mod 64) # rest)
          = (c, 2)"
proof -
  define h m l where "h = c div 4096" and "m = c div 64 mod 64" and "l = c mod 64"
  define b s t where "b = 0xE0 + h" and "s = 0x80 + m" and "t = 0x80 + l"
  have c: "c = h * 4096 + m * 64 + l"
    unfolding h_def m_def l_def by (rule split3)
  have m: "m < 64" and l: "l < 64"
    by (simp_all add: m_def l_def)
  show "utf8_encode_cp c = [0xE0 + c div 4096, 0x80 + c div 64 mod 64, 0x80 + c mod 64]"
    using assms by (simp add: utf8_encode_cp_def)
  have h: "h \<le> 15" using c assms(2) by arith
  have lead: "\<not> b < 0x80" "\<not> (0xC2 \<le> b \<and> b \<le> 0xDF)" "0xE0 \<le> b" "b \<le> 0xEF"
    using h unfolding b_def by arith+
  have lo: "lower_boundary b \<le> s"
  proof (cases "h = 0")
    case True
    with c assms(1) l have "32 \<le> m" by arith
    with True show ?thesis by (simp add: lower_boundary_def b_def s_def)
  next
    case False
    with h show ?thesis by (simp add: lower_boundary_def b_def s_def)
  qed
  have hi: "s \<le> upper_boundary b"
  proof (cases "h = 13")
    case True
    with c m l have "c \<le> 0xDFFF" by arith
    with assms(3) have "c < 0xD800" unfolding scalar_def by arith
    with True c have "m < 32" by arith
    with True show ?thesis by (simp add: upper_boundary_def b_def s_def)
  next
    case False
    with h m show ?thesis by (simp add: upper_boundary_def b_def s_def)
  qed
  have cont: "is_continuation t"
    using l unfolding is_continuation_def t_def by arith
  have val: "value3 b s t = c"
    unfolding value3_def b_def s_def t_def using c by simp
  have "utf8_next b (s # t # rest) = (c, 2)"
    using lead lo hi cont val by (simp add: utf8_next_def utf8_next3_def is_second_def)
  then show "utf8_next (0xE0 + c div 4096) ((0x80 + c div 64 mod 64) # (0x80 + c mod 64) # rest)
      = (c, 2)"
    unfolding b_def s_def t_def h_def m_def l_def .
qed

lemma utf8_next_encode4:
  assumes "0x10000 \<le> c" "c < 0x110000"
  shows "utf8_encode_cp c =
      [0xF0 + c div 262144, 0x80 + c div 4096 mod 64, 0x80 + c div 64 mod 64, 0x80 + c mod 64]"
    and "utf8_next (0xF0 + c div 262144)
      ((0x80 + c div 4096 mod 64) # (0x80 + c div 64 mod 64) # (0x80 + c mod 64) # rest) = (c, 3)"
proof -
  define h k m l where "h = c div 262144" and "k = c div 4096 mod 64"
    and "m = c div 64 mod 64" and "l = c mod 64"
  define b s t u where "b = 0xF0 + h" and "s = 0x80 + k" and "t = 0x80 + m" and "u = 0x80 + l"
  have c: "c = h * 262144 + k * 4096 + m * 64 + l"
    unfolding h_def k_def m_def l_def by (rule split4)
  have k: "k < 64" and m: "m < 64" and l: "l < 64"
    by (simp_all add: k_def m_def l_def)
  have "scalar c" using assms unfolding scalar_def by arith
  then show "utf8_encode_cp c =
      [0xF0 + c div 262144, 0x80 + c div 4096 mod 64, 0x80 + c div 64 mod 64, 0x80 + c mod 64]"
    using assms by (simp add: utf8_encode_cp_def)
  have h: "h \<le> 4" using c assms(2) by arith
  have lead: "\<not> b < 0x80" "\<not> (0xC2 \<le> b \<and> b \<le> 0xDF)" "\<not> (0xE0 \<le> b \<and> b \<le> 0xEF)"
      "0xF0 \<le> b" "b \<le> 0xF4"
    using h unfolding b_def by arith+
  have lo: "lower_boundary b \<le> s"
  proof (cases "h = 0")
    case True
    with c assms(1) m l have "16 \<le> k" by arith
    with True show ?thesis by (simp add: lower_boundary_def b_def s_def)
  next
    case False
    then show ?thesis by (simp add: lower_boundary_def b_def s_def)
  qed
  have hi: "s \<le> upper_boundary b"
  proof (cases "h = 4")
    case True
    with c assms(2) have "k < 16" by arith
    with True show ?thesis by (simp add: upper_boundary_def b_def s_def)
  next
    case False
    with h k show ?thesis by (simp add: upper_boundary_def b_def s_def)
  qed
  have cont: "is_continuation t" "is_continuation u"
    using m l unfolding is_continuation_def t_def u_def by arith+
  have val: "value4 b s t u = c"
    unfolding value4_def b_def s_def t_def u_def using c by simp
  have "utf8_next b (s # t # u # rest) = (c, 3)"
    using lead lo hi cont val by (simp add: utf8_next_def utf8_next4_def is_second_def)
  then show "utf8_next (0xF0 + c div 262144)
      ((0x80 + c div 4096 mod 64) # (0x80 + c div 64 mod 64) # (0x80 + c mod 64) # rest) = (c, 3)"
    unfolding b_def s_def t_def u_def h_def k_def m_def l_def .
qed

lemma utf8_decode_encode_cp:
  assumes "scalar c"
  shows "utf8_decode (utf8_encode_cp c @ rest) = c # utf8_decode rest"
proof -
  consider "c < 0x80" | "0x80 \<le> c" "c < 0x800" | "0x800 \<le> c" "c < 0x10000"
    | "0x10000 \<le> c" "c < 0x110000"
    using assms unfolding scalar_def by arith
  then show ?thesis
  proof cases
    case 1
    then show ?thesis by (simp add: utf8_next_encode1)
  next
    case 2
    then show ?thesis by (simp add: utf8_next_encode2)
  next
    case 3
    with assms show ?thesis by (simp add: utf8_next_encode3)
  next
    case 4
    then show ?thesis by (simp add: utf8_next_encode4)
  qed
qed

lemma utf8_decode_encode_append:
  assumes "well_formed s"
  shows "utf8_decode (utf8_encode s @ rest) = s @ utf8_decode rest"
  using assms
  by (induction s) (simp_all add: well_formed_def utf8_encode_def utf8_decode_encode_cp)

lemma utf8_decode_encode: "well_formed s \<Longrightarrow> utf8_decode (utf8_encode s) = s"
  using utf8_decode_encode_append [of s "[]"] by simp

lemma utf8_encode_cp_bytes:
  assumes b: "b \<in> set (utf8_encode_cp c)"
  shows "b < 256"
proof -
  consider "c < 0x80" | "0x80 \<le> c" "c < 0x800" | "0x800 \<le> c" "\<not> scalar c"
    | "0x800 \<le> c" "c < 0x10000" "scalar c" | "0x10000 \<le> c" "scalar c"
    by arith
  then show ?thesis
  proof cases
    case 1 with b show ?thesis by (simp add: utf8_encode_cp_def)
  next
    case 2
    then have "c div 64 < 32" by arith
    with 2 b show ?thesis by (auto simp: utf8_encode_cp_def)
  next
    case 3 with b show ?thesis by (auto simp: utf8_encode_cp_def)
  next
    case 4
    then have "c div 4096 < 16" by arith
    with 4 b show ?thesis by (auto simp: utf8_encode_cp_def)
  next
    case 5
    then have "c div 262144 < 5" unfolding scalar_def by arith
    with 5 b show ?thesis by (auto simp: utf8_encode_cp_def)
  qed
qed

lemma utf8_encode_bytes: "b \<in> set (utf8_encode s) \<Longrightarrow> b < 256"
  by (auto simp: utf8_encode_def dest: utf8_encode_cp_bytes)

lemma unat_of_nat_bytes:
  "\<forall>b \<in> set bs. b < 256 \<Longrightarrow> map unat (map of_nat bs :: byte list) = bs"
  by (induction bs) (simp_all add: unat_of_nat)

lemma toString_utf8_well_formed: "well_formed (toString_utf8 buf)"
  by (simp add: well_formed_def toString_utf8_def list_all_iff utf8_decode_scalar)

lemma unat_Buffer_from_utf8: "map unat (Buffer_from_utf8 s) = utf8_encode s"
  unfolding Buffer_from_utf8_def
  by (rule unat_of_nat_bytes) (simp add: utf8_encode_bytes)

lemma toString_Buffer_from_utf8: "well_formed s \<Longrightarrow> toString_utf8 (Buffer_from_utf8 s) = s"
  unfolding toString_utf8_def unat_Buffer_from_utf8 by (rule utf8_decode_encode)

lemma toString_utf8_idem:
  "toString_utf8 (Buffer_from_utf8 (toString_utf8 buf)) = toString_utf8 buf"
  by (simp add: toString_Buffer_from_utf8 toString_utf8_well_formed)

section \<open>Facts about the example snapshot\<close>

lemma example_rateLimit: "rateLimit_get example_github = Inr 4999"
  by (simp add: example_github_def)

lemma example_getCommit:
  "repos_getCommit example_github owner repo (js ''main'') = Inr (Some (js ''t1''))"
  by (simp add: example_github_def)

lemma example_getTree: "git_getTree example_github owner repo sha = Inr example_tree"
  by (simp add: example_github_def)

lemma example_gitignore_A:
  "repos_getContent example_github owner (js ''A'') (js ''.gitignore'')
     = Inr (Some (js ''IyB4CmEudHh0CnNlY3JldC8K''))"
  by (simp add: example_github_def)

lemma example_gitignore_B:
  "repos_getContent example_github owner (js ''B'') (js ''.gitignore'') = Inl (RequestError 404)"
  by (simp add: example_github_def)

lemma example_a_txt:
  "repos_getContent example_github owner repo (js ''a.txt'') = Inr (Some (js ''aGk=''))"
  by (simp add: example_github_def)

lemma example_key_pem:
  "repos_getContent example_github owner repo (js ''secret/key.pem'') = Inr (Some (js ''4oKs/w==''))"
  by (simp add: example_github_def)

lemma example_link: "repos_getContent example_github owner repo (js ''link'') = Inr None"
  by (simp add: example_github_def)

lemma base64_reads_low_byte: "Buffer_from_base64 [0x61, 0x47, 0x161, 0x6B] = [0x68, 0x66, 0xA4]"
  by (simp add: Buffer_from_base64_def code_units_def unbase64_def)

lemma example_gitignore_bytes:
  "Buffer_from_base64 (js ''IyB4CmEudHh0CnNlY3JldC8K'')
     = [0x23, 0x20, 0x78, 0x0A, 0x61, 0x2E, 0x74, 0x78, 0x74, 0x0A,
        0x73, 0x65, 0x63, 0x72, 0x65, 0x74, 0x2F, 0x0A]"
  by (simp add: js_def Buffer_from_base64_def code_units_def unbase64_def)

lemma example_gitignore_text:
  "toString_utf8 (Buffer_from_base64 (js ''IyB4CmEudHh0CnNlY3JldC8K''))
     = js ''# x'' @ newline @ js ''a.txt'' @ newline @ js ''secret/'' @ newline"
  unfolding example_gitignore_bytes by (simp add: js_def toString_utf8_def utf8_next_def)

lemma example_a_txt_text: "toString_utf8 (Buffer_from_base64 (js ''aGk='')) = js ''hi''"
  by (simp add: js_def Buffer_from_base64_def code_units_def unbase64_def toString_utf8_def utf8_next_def)

lemma example_key_pem_bytes: "Buffer_from_base64 (js ''4oKs/w=='') = [0xE2, 0x82, 0xAC, 0xFF]"
  by (simp add: js_def Buffer_from_base64_def code_units_def unbase64_def)

lemma example_key_pem_text:
  "toString_utf8 (Buffer_from_base64 (js ''4oKs/w=='')) = [0x20AC, 0xFFFD]"
  unfolding example_key_pem_bytes
  by (simp add: toString_utf8_def utf8_next_def utf8_next3_def
      is_second_def lower_boundary_def upper_boundary_def is_continuation_def value3_def)

lemma example_loadGitignore_A:
  "loadGitignore example_github \<sigma> owner (js ''A'') =
     \<sigma>\<lparr>requests := requests \<sigma> @ [GetContent owner (js ''A'') (js ''.gitignore'')],
       ignoredFiles := {js ''a.txt'', js ''secret/''}\<rparr>"
proof -
  have "set (filter (\<lambda>line. line \<noteq> [] \<and> \<not> startsWith line (js ''#''))
          (map trim (split_on 0x0A
             (js ''# x'' @ newline @ js ''a.txt'' @ newline @ js ''secret/'' @ newline))))
        = {js ''a.txt'', js ''secret/''}"
    by (simp add: js_def trim_def is_white_space_def startsWith_def)
  then show ?thesis
    by (simp add: loadGitignore_def wrapWithRateLimit_def example_gitignore_A
        example_gitignore_text)
qed

lemma example_loadGitignore_B:
  "loadGitignore example_github \<sigma> owner (js ''B'') =
     \<sigma>\<lparr>requests := requests \<sigma> @ [GetContent owner (js ''B'') (js ''.gitignore'')]\<rparr>"
  by (simp add: loadGitignore_def wrapWithRateLimit_def example_gitignore_B)

lemma example_getRepoFiles:
  "getRepoFiles example_github \<sigma> owner repo (js ''main'') None =
     (Inr (filter (\<lambda>item. type item = js ''blob'' \<and> path item \<notin> ignoredFiles \<sigma>) example_tree),
      \<sigma>\<lparr>requests := requests \<sigma> @ [GetCommit owner repo (js ''main''), GetTree owner repo (js ''t1'')]\<rparr>)"
  by (simp add: getRepoFiles_def wrapWithRateLimit_def example_getCommit example_getTree)

lemma example_results:
  "file_result example_github owner repo \<lparr>path = js ''a.txt'', type = t\<rparr>
     = Inr (Some \<lparr>path = js ''a.txt'', content = js ''hi''\<rparr>)"
  "file_result example_github owner repo \<lparr>path = js ''secret/key.pem'', type = t\<rparr>
     = Inr (Some \<lparr>path = js ''secret/key.pem'', content = [0x20AC, 0xFFFD]\<rparr>)"
  "file_result example_github owner repo \<lparr>path = js ''link'', type = t\<rparr> = Inr None"
  by (simp_all add: file_result_def entry_of_def example_a_txt example_a_txt_text example_key_pem
      example_key_pem_text example_link)

lemma example_enumeration_A:
  "enumeration example_github (constructor [] None) (js ''o'') (js ''A'') (js ''main'') True None =
     (Inr [\<lparr>path = js ''secret/key.pem'', type = js ''blob''\<rparr>,
           \<lparr>path = js ''link'', type = js ''blob''\<rparr>],
      (constructor [] None)
        \<lparr>requests := [RateLimitGet, GetContent (js ''o'') (js ''A'') (js ''.gitignore''),
                      GetCommit (js ''o'') (js ''A'') (js ''main''),
                      GetTree (js ''o'') (js ''A'') (js ''t1'')],
         ignoredFiles := {js ''a.txt'', js ''secret/''}\<rparr>)"
  by (simp add: enumeration_def fetchRateLimit_def wrapWithRateLimit_def example_rateLimit
      example_loadGitignore_A example_getRepoFiles example_tree_def constructor_def)

lemma example_enumeration_B:
  "enumeration example_github (constructor [] None) (js ''o'') (js ''B'') (js ''main'') True None =
     (Inr [\<lparr>path = js ''a.txt'', type = js ''blob''\<rparr>,
           \<lparr>path = js ''secret/key.pem'', type = js ''blob''\<rparr>,
           \<lparr>path = js ''link'', type = js ''blob''\<rparr>],
      (constructor [] None)
        \<lparr>requests := [RateLimitGet, GetContent (js ''o'') (js ''B'') (js ''.gitignore''),
                      GetCommit (js ''o'') (js ''B'') (js ''main''),
                      GetTree (js ''o'') (js ''B'') (js ''t1'')]\<rparr>)"
  by (simp add: enumeration_def fetchRateLimit_def wrapWithRateLimit_def example_rateLimit
      example_loadGitignore_B example_getRepoFiles example_tree_def constructor_def)

section \<open>The decode flag\<close>

lemma fetchFileContent_result:
  "fetchFileContent gh \<sigma> owner repo file decodeContent =
     (file_result gh owner repo file,
      \<sigma>\<lparr>requests := requests \<sigma> @ [GetContent owner repo (path file)]\<rparr>)"
  by (simp add: fetchFileContent_def file_result_def wrapWithRateLimit_def entry_of_def
      toString_utf8_idem Let_def split: sum.splits option.splits)

text \<open>
  C10. Whatever bytes the payload decodes to, \<open>fetchFileContent\<close> returns the same result
  and leaves the same instance with \<open>decodeContent\<close> set and unset: the content is the
  UTF-8 decoding of the base64 payload in both cases, because decoding, encoding and
  decoding again any buffer gives what decoding it once gives.
\<close>

theorem decodeContent_has_no_effect:
  "fetchFileContent gh \<sigma> owner repo (file :: tree_item) True
     = fetchFileContent gh \<sigma> owner repo file False
   \<and> (\<forall>data. repos_getContent gh owner repo (path file) = Inr (Some data) \<longrightarrow>
         fst (fetchFileContent gh \<sigma> owner repo file decodeContent)
           = Inr (Some \<lparr>path = path file, content = toString_utf8 (Buffer_from_base64 data)\<rparr>))
   \<and> (\<forall>buf. toString_utf8 (Buffer_from_utf8 (toString_utf8 buf)) = toString_utf8 buf)"
  by (simp add: fetchFileContent_result file_result_def entry_of_def toString_utf8_idem)

theorem decodeContent_has_no_effect_witness:
  "repos_getContent example_github (js ''o'') (js ''A'') (js ''secret/key.pem'')
     = Inr (Some (js ''4oKs/w==''))
   \<and> Buffer_from_base64 (js ''4oKs/w=='') = [0xE2, 0x82, 0xAC, 0xFF]
   \<and> fst (fetchFileContent example_github (constructor [] None) (js ''o'') (js ''A'')
            \<lparr>path = js ''secret/key.pem'', type = js ''blob''\<rparr> True)
       = Inr (Some \<lparr>path = js ''secret/key.pem'', content = [0x20AC, 0xFFFD]\<rparr>)
   \<and> fetchFileContent example_github (constructor [] None) (js ''o'') (js ''A'')
            \<lparr>path = js ''secret/key.pem'', type = js ''blob''\<rparr> True
       = fetchFileContent example_github (constructor [] None) (js ''o'') (js ''A'')
            \<lparr>path = js ''secret/key.pem'', type = js ''blob''\<rparr> False"
proof -
  note inst = decodeContent_has_no_effect
    [of example_github "constructor [] None" "js ''o''" "js ''A''"
        "\<lparr>path = js ''secret/key.pem'', type = js ''blob''\<rparr>" True]
  have "fst (fetchFileContent example_github (constructor [] None) (js ''o'') (js ''A'')
            \<lparr>path = js ''secret/key.pem'', type = js ''blob''\<rparr> True)
       = Inr (Some \<lparr>path = js ''secret/key.pem'', content = [0x20AC, 0xFFFD]\<rparr>)"
    using inst [THEN conjunct2, THEN conjunct1, rule_format, of "js ''4oKs/w==''"]
    by (simp add: example_key_pem example_key_pem_text)
  moreover from inst
  have "fetchFileContent example_github (constructor [] None) (js ''o'') (js ''A'')
            \<lparr>path = js ''secret/key.pem'', type = js ''blob''\<rparr> True
       = fetchFileContent example_github (constructor [] None) (js ''o'') (js ''A'')
            \<lparr>path = js ''secret/key.pem'', type = js ''blob''\<rparr> False"
    by (rule conjunct1)
  ultimately show ?thesis
    using example_key_pem [of "js ''o''" "js ''A''"] example_key_pem_bytes by blast
qed

section \<open>The quota check\<close>

text \<open>
  C1. When the quota check answers \<open>remaining = 0\<close>, both top-level operations fail with
  the rate-limit error (the source raises a plain \<open>Error\<close> with this message), the
  stream yields nothing, and the only request issued is the quota check itself: no
  commit or tree request, no \<open>.gitignore\<close> request, no content request. The exclusion
  set is left as it was.
\<close>

theorem quota_exhausted_fails_fast:
  assumes "rateLimit_get gh = Inr 0"
  shows "fetchRepoContent gh settle \<sigma> owner repo branch decodeContent ignoreGitIgnoreFiles
           outputFormat filterFn
         = (Inl (Error (js ''GitHub Rate limit exceeded. Please try again later.'')),
            \<sigma>\<lparr>requests := requests \<sigma> @ [RateLimitGet]\<rparr>)
       \<and> fetchRepoContentStream gh \<sigma> owner repo branch decodeContent ignoreGitIgnoreFiles
           outputFormat filterFn
         = ([], Some (Error (js ''GitHub Rate limit exceeded. Please try again later.'')),
            \<sigma>\<lparr>requests := requests \<sigma> @ [RateLimitGet]\<rparr>)"
  using assms
  by (simp add: fetchRepoContent_def fetchRepoContentStream_def fetchRateLimit_def
      wrapWithRateLimit_def)

theorem quota_exhausted_fails_fast_witness:
  "rateLimit_get (example_github\<lparr>rateLimit_get := Inr 0\<rparr>) = Inr 0
   \<and> fetchRepoContent (example_github\<lparr>rateLimit_get := Inr 0\<rparr>) id (constructor [] None)
        (js ''o'') (js ''A'') (js ''main'') False True (js ''json'') None
      = (Inl (Error (js ''GitHub Rate limit exceeded. Please try again later.'')),
         (constructor [] None)\<lparr>requests := [RateLimitGet]\<rparr>)
   \<and> fetchRepoContentStream (example_github\<lparr>rateLimit_get := Inr 0\<rparr>) (constructor [] None)
        (js ''o'') (js ''A'') (js ''main'') False True (js ''json'') None
      = ([], Some (Error (js ''GitHub Rate limit exceeded. Please try again later.'')),
         (constructor [] None)\<lparr>requests := [RateLimitGet]\<rparr>)"
proof -
  have h: "rateLimit_get (example_github\<lparr>rateLimit_get := Inr 0\<rparr>) = Inr 0"
    by simp
  show ?thesis
    using h quota_exhausted_fails_fast [OF h, of id "constructor [] None" "js ''o''" "js ''A''"
        "js ''main''" False True "js ''json''" None]
    by (simp add: constructor_def)
qed

section \<open>Fetching the enumerated files\<close>

lemma fetchFileContents_result:
  "fetchFileContents gh \<sigma> owner repo files decodeContent =
     (map (file_result gh owner repo) files,
      \<sigma>\<lparr>requests := requests \<sigma> @ map (\<lambda>file. GetContent owner repo (path file)) files\<rparr>)"
  by (induction files arbitrary: \<sigma>) (simp_all add: fetchFileContent_result)

lemma rejections_empty: "rejections i ps = [] \<longleftrightarrow> (\<forall>p \<in> set ps. \<not> isl p)"
proof (induction ps arbitrary: i)
  case Nil
  show ?case by simp
next
  case (Cons p ps)
  then show ?case by (cases p) simp_all
qed

lemma Promise_all_fulfilled:
  "Promise_all settle ps = Inr xs \<longleftrightarrow> (\<forall>p \<in> set ps. \<not> isl p) \<and> xs = fulfilled ps"
proof (cases "rejections 0 ps")
  case Nil
  then show ?thesis
    using rejections_empty [of 0 ps] by (auto simp: Promise_all_def)
next
  case (Cons r rs)
  then have "length (sort_key (\<lambda>r. settle (fst r)) (rejections 0 ps)) = Suc (length rs)"
    by simp
  then obtain r' rs' where "sort_key (\<lambda>r. settle (fst r)) (rejections 0 ps) = r' # rs'"
    by (cases "sort_key (\<lambda>r. settle (fst r)) (rejections 0 ps)") simp_all
  moreover have "\<not> (\<forall>p \<in> set ps. \<not> isl p)"
    using Cons rejections_empty [of 0 ps] by simp
  ultimately show ?thesis by (simp add: Promise_all_def)
qed

lemma entries_of_Nil: "entries_of gh owner repo [] = []"
  by (simp add: entries_of_def)

lemma entries_of_Cons:
  "entries_of gh owner repo (file # files) =
     (case repos_getContent gh owner repo (path file) of
        Inr (Some data) \<Rightarrow> [entry_of file data]
      | _ \<Rightarrow> [])
     @ entries_of gh owner repo files"
  by (simp add: entries_of_def)

lemma filter_Boolean_fulfilled:
  "filter_Boolean (fulfilled (map (file_result gh owner repo) files)) = entries_of gh owner repo files"
  by (induction files)
    (simp_all add: entries_of_Nil entries_of_Cons file_result_def split: sum.splits option.splits)

lemma isl_file_result:
  "isl (file_result gh owner repo file) \<longleftrightarrow> isl (repos_getContent gh owner repo (path file))"
  by (simp add: file_result_def split: sum.splits option.splits)

lemma formatOutput_json: "formatOutput files (js ''json'') = Inr (Collection files)"
  by (simp add: formatOutput_def)

lemma stream_files_json:
  "stream_files gh \<sigma> owner repo files decodeContent (js ''json'') = (items, thrown, \<sigma>') \<Longrightarrow>
     (thrown = None \<longleftrightarrow> (\<forall>file \<in> set files. \<not> isl (file_result gh owner repo file)))
     \<and> (thrown = None \<longrightarrow> collect items = entries_of gh owner repo files)"
proof (induction files arbitrary: \<sigma> items thrown \<sigma>')
  case Nil
  then show ?case by (simp add: entries_of_Nil)
next
  case (Cons f fs)
  let ?\<sigma> = "\<sigma>\<lparr>requests := requests \<sigma> @ [GetContent owner repo (path f)]\<rparr>"
  show ?case
  proof (cases "repos_getContent gh owner repo (path f)")
    case (Inl e)
    with Cons.prems show ?thesis
      by (auto simp: fetchFileContent_result file_result_def)
  next
    case (Inr answer)
    show ?thesis
    proof (cases answer)
      case None
      with Inr Cons.prems
      have "stream_files gh ?\<sigma> owner repo fs decodeContent (js ''json'') = (items, thrown, \<sigma>')"
        by (simp add: fetchFileContent_result file_result_def)
      from Cons.IH [OF this] None Inr show ?thesis
        by (simp add: entries_of_Cons file_result_def)
    next
      case (Some data)
      obtain items' thrown' \<sigma>'' where
        rest: "stream_files gh ?\<sigma> owner repo fs decodeContent (js ''json'')
                 = (items', thrown', \<sigma>'')"
        by (cases "stream_files gh ?\<sigma> owner repo fs decodeContent (js ''json'')") auto
      with Some Inr Cons.prems
      have "items = Collection [entry_of f data] # items'" and "thrown = thrown'"
        by (simp_all add: fetchFileContent_result file_result_def formatOutput_json)
      with Cons.IH [OF rest] Some Inr show ?thesis
        by (simp add: entries_of_Cons file_result_def)
    qed
  qed
qed

lemma stream_files_json_items:
  "fst (stream_files gh \<sigma> owner repo files decodeContent (js ''json''))
     = map (\<lambda>entry. Collection [entry])
         (entries_of gh owner repo
            (takeWhile (\<lambda>f. \<not> isl (repos_getContent gh owner repo (path f))) files))"
proof (induction files arbitrary: \<sigma>)
  case Nil
  show ?case by (simp add: entries_of_Nil)
next
  case (Cons f fs)
  let ?\<sigma> = "\<sigma>\<lparr>requests := requests \<sigma> @ [GetContent owner repo (path f)]\<rparr>"
  from Cons.IH [of ?\<sigma>] show ?case
    by (auto simp: fetchFileContent_result file_result_def formatOutput_json entries_of_Nil
        entries_of_Cons split: sum.splits option.splits prod.splits)
qed

lemma stream_files_json_thrown:
  "fst (snd (stream_files gh \<sigma> owner repo files decodeContent (js ''json''))) = None
     \<longleftrightarrow> (\<forall>f \<in> set files. \<not> isl (repos_getContent gh owner repo (path f)))"
proof -
  obtain items thrown \<sigma>' where
    st: "stream_files gh \<sigma> owner repo files decodeContent (js ''json'') = (items, thrown, \<sigma>')"
    by (cases "stream_files gh \<sigma> owner repo files decodeContent (js ''json'')") auto
  from stream_files_json [OF st] st show ?thesis
    by (simp add: isl_file_result)
qed


lemma fetchRepoContent_enumeration:
  "fetchRepoContent gh settle \<sigma> owner repo branch decodeContent ignoreGitIgnoreFiles outputFormat
       filterFn =
     (case enumeration gh \<sigma> owner repo branch ignoreGitIgnoreFiles filterFn of
        (Inl e, \<sigma>3) \<Rightarrow> (Inl e, \<sigma>3)
      | (Inr files, \<sigma>3) \<Rightarrow>
          (case Promise_all settle (map (file_result gh owner repo) files) of
             Inl e \<Rightarrow> Inl e
           | Inr contents \<Rightarrow> formatOutput (filter_Boolean contents) outputFormat,
           \<sigma>3\<lparr>requests := requests \<sigma>3 @ map (\<lambda>file. GetContent owner repo (path file)) files\<rparr>))"
  by (simp add: fetchRepoContent_def enumeration_def fetchFileContents_result Let_def
      split: prod.splits sum.splits)

lemma fetchRepoContentStream_enumeration:
  "fetchRepoContentStream gh \<sigma> owner repo branch decodeContent ignoreGitIgnoreFiles outputFormat
       filterFn =
     (case enumeration gh \<sigma> owner repo branch ignoreGitIgnoreFiles filterFn of
        (Inl e, \<sigma>3) \<Rightarrow> ([], Some e, \<sigma>3)
      | (Inr files, \<sigma>3) \<Rightarrow> stream_files gh \<sigma>3 owner repo files decodeContent outputFormat)"
  by (simp add: fetchRepoContentStream_def enumeration_def Let_def split: prod.splits sum.splits)

lemma example_batch_B:
  "fst (fetchRepoContent example_github settle (constructor [] None) (js ''o'') (js ''B'')
          (js ''main'') decodeContent True (js ''json'') None)
     = Inr (Collection [\<lparr>path = js ''a.txt'', content = js ''hi''\<rparr>,
                        \<lparr>path = js ''secret/key.pem'', content = [0x20AC, 0xFFFD]\<rparr>])"
  by (simp add: fetchRepoContent_enumeration example_enumeration_B example_results
      Promise_all_def formatOutput_json)

section \<open>Enumeration\<close>

text \<open>
  C2. Once the branch resolves to a tree, the enumerator returns the raw listing filtered to
  the entries of type \<open>blob\<close> that satisfy the predicate (every blob when there is no
  predicate) and whose path is no member of the exclusion set, in the listing's order.
  Membership is equality of paths: with the exclusion set \<open>{a.txt, secret/}\<close> an entry
  \<open>a.txt\<close> is dropped and a blob \<open>secret/key.pem\<close> is kept.
\<close>

theorem getRepoFiles_keeps_exactly_eligible_blobs:
  assumes "repos_getCommit gh owner repo branch = Inr (Some sha)" and "sha \<noteq> []"
    and "git_getTree gh owner repo sha = Inr tree"
  shows "\<exists>files. fst (getRepoFiles gh \<sigma> owner repo branch filterFn) = Inr files
           \<and> files = filter (\<lambda>item. type item = js ''blob''
                          \<and> (case filterFn of None \<Rightarrow> True | Some predicate \<Rightarrow> predicate (path item))
                          \<and> path item \<notin> ignoredFiles \<sigma>) tree
           \<and> (ignoredFiles \<sigma> = {js ''a.txt'', js ''secret/''} \<longrightarrow>
                (\<forall>item \<in> set tree. path item = js ''a.txt'' \<longrightarrow> item \<notin> set files)
                \<and> (\<forall>item \<in> set tree. path item = js ''secret/key.pem'' \<and> type item = js ''blob''
                        \<and> filterFn = None \<longrightarrow> item \<in> set files))"
  using assms by (simp add: getRepoFiles_def wrapWithRateLimit_def)

theorem getRepoFiles_keeps_exactly_eligible_blobs_witness:
  "repos_getCommit example_github (js ''o'') (js ''A'') (js ''main'') = Inr (Some (js ''t1''))
   \<and> js ''t1'' \<noteq> []
   \<and> git_getTree example_github (js ''o'') (js ''A'') (js ''t1'') = Inr example_tree
   \<and> fst (getRepoFiles example_github
            ((constructor [] None)\<lparr>ignoredFiles := {js ''a.txt'', js ''secret/''}\<rparr>)
            (js ''o'') (js ''A'') (js ''main'') None)
       = Inr [\<lparr>path = js ''secret/key.pem'', type = js ''blob''\<rparr>,
              \<lparr>path = js ''link'', type = js ''blob''\<rparr>]"
proof -
  have c: "repos_getCommit example_github (js ''o'') (js ''A'') (js ''main'') = Inr (Some (js ''t1''))"
    by (rule example_getCommit)
  have n: "js ''t1'' \<noteq> []" by simp
  have t: "git_getTree example_github (js ''o'') (js ''A'') (js ''t1'') = Inr example_tree"
    by (rule example_getTree)
  from getRepoFiles_keeps_exactly_eligible_blobs [OF c n t,
      of "(constructor [] None)\<lparr>ignoredFiles := {js ''a.txt'', js ''secret/''}\<rparr>" None]
  have "fst (getRepoFiles example_github
            ((constructor [] None)\<lparr>ignoredFiles := {js ''a.txt'', js ''secret/''}\<rparr>)
            (js ''o'') (js ''A'') (js ''main'') None)
       = Inr [\<lparr>path = js ''secret/key.pem'', type = js ''blob''\<rparr>,
              \<lparr>path = js ''link'', type = js ''blob''\<rparr>]"
    by (simp add: example_tree_def)
  with c n t show ?thesis by blast
qed

section \<open>What a call depends on\<close>

lemma constructor_ignoredFiles: "ignoredFiles (constructor authToken options) = {}"
  by (simp add: constructor_def)

lemma loadGitignore_failure:
  assumes "repos_getContent gh owner repo (js ''.gitignore'') = Inl e
         \<or> repos_getContent gh owner repo (js ''.gitignore'') = Inr None"
  shows "ignoredFiles (loadGitignore gh \<sigma> owner repo) = ignoredFiles \<sigma>"
  using assms by (auto simp: loadGitignore_def wrapWithRateLimit_def)

lemma getRepoFiles_depends_on_ignoredFiles:
  "ignoredFiles \<sigma> = ignoredFiles \<sigma>' \<Longrightarrow>
     fst (getRepoFiles gh \<sigma> owner repo branch filterFn)
       = fst (getRepoFiles gh \<sigma>' owner repo branch filterFn)"
  by (simp add: getRepoFiles_def wrapWithRateLimit_def split: sum.splits option.splits)

lemma fst_fetchRepoContent:
  "fst (fetchRepoContent gh settle \<sigma> owner repo branch decodeContent ignoreGitIgnoreFiles
          outputFormat filterFn) =
     (case fst (enumeration gh \<sigma> owner repo branch ignoreGitIgnoreFiles filterFn) of
        Inl e \<Rightarrow> Inl e
      | Inr files \<Rightarrow>
          (case Promise_all settle (map (file_result gh owner repo) files) of
             Inl e \<Rightarrow> Inl e
           | Inr contents \<Rightarrow> formatOutput (filter_Boolean contents) outputFormat))"
  by (simp add: fetchRepoContent_enumeration split: prod.splits sum.splits)

lemma stream_files_state:
  "fst (stream_files gh \<sigma> owner repo files decodeContent outputFormat)
     = fst (stream_files gh \<sigma>' owner repo files decodeContent outputFormat)
   \<and> fst (snd (stream_files gh \<sigma> owner repo files decodeContent outputFormat))
     = fst (snd (stream_files gh \<sigma>' owner repo files decodeContent outputFormat))"
proof (induction files arbitrary: \<sigma> \<sigma>')
  case Nil
  show ?case by simp
next
  case (Cons f fs)
  let ?\<sigma> = "\<sigma>\<lparr>requests := requests \<sigma> @ [GetContent owner repo (path f)]\<rparr>"
  let ?\<sigma>' = "\<sigma>'\<lparr>requests := requests \<sigma>' @ [GetContent owner repo (path f)]\<rparr>"
  from Cons.IH [of ?\<sigma> ?\<sigma>'] show ?case
    by (auto simp: fetchFileContent_result split: sum.splits option.splits prod.splits)
qed

lemma ignoredFiles_loadGitignore:
  "ignoredFiles \<sigma> = ignoredFiles \<sigma>' \<Longrightarrow>
     ignoredFiles (loadGitignore gh \<sigma> owner repo) = ignoredFiles (loadGitignore gh \<sigma>' owner repo)"
  by (simp add: loadGitignore_def wrapWithRateLimit_def split: sum.splits option.splits)

lemma loadGitignore_idem:
  "ignoredFiles (loadGitignore gh \<sigma>' owner repo) = ignoredFiles (loadGitignore gh \<sigma> owner repo)"
  if "ignoredFiles \<sigma>' = ignoredFiles (loadGitignore gh \<sigma> owner repo)"
  using that by (simp add: loadGitignore_def wrapWithRateLimit_def split: sum.splits option.splits)

lemma ignoredFiles_getRepoFiles:
  "ignoredFiles (snd (getRepoFiles gh \<sigma> owner repo branch filterFn)) = ignoredFiles \<sigma>"
  by (simp add: getRepoFiles_def wrapWithRateLimit_def split: sum.splits option.splits)

lemma ignoredFiles_fetchRateLimit: "ignoredFiles (snd (fetchRateLimit gh \<sigma>)) = ignoredFiles \<sigma>"
  by (simp add: fetchRateLimit_def wrapWithRateLimit_def)

lemma fst_fetchRateLimit: "fst (fetchRateLimit gh \<sigma>) = rateLimit_get gh"
  by (simp add: fetchRateLimit_def wrapWithRateLimit_def)


lemma fst_enumeration:
  "fst (enumeration gh \<sigma> owner repo branch ignoreGitIgnoreFiles filterFn) =
     (case rateLimit_get gh of
        Inl e \<Rightarrow> Inl e
      | Inr remaining \<Rightarrow>
          if remaining = 0
          then Inl (Error (js ''GitHub Rate limit exceeded. Please try again later.''))
          else fst (getRepoFiles gh
                 (if ignoreGitIgnoreFiles then loadGitignore gh (snd (fetchRateLimit gh \<sigma>)) owner repo
                  else snd (fetchRateLimit gh \<sigma>))
                 owner repo branch filterFn))"
  by (simp add: enumeration_def fetchRateLimit_def wrapWithRateLimit_def split: sum.splits)

lemma ignoredFiles_enumeration:
  "ignoredFiles (snd (enumeration gh \<sigma> owner repo branch ignoreGitIgnoreFiles filterFn)) =
     (case rateLimit_get gh of
        Inl e \<Rightarrow> ignoredFiles \<sigma>
      | Inr remaining \<Rightarrow>
          if remaining = 0 then ignoredFiles \<sigma>
          else if ignoreGitIgnoreFiles
            then ignoredFiles (loadGitignore gh (snd (fetchRateLimit gh \<sigma>)) owner repo)
            else ignoredFiles \<sigma>)"
  by (simp add: enumeration_def fetchRateLimit_def wrapWithRateLimit_def ignoredFiles_getRepoFiles
      split: sum.splits)

lemma ignoredFiles_fetchRepoContent:
  "ignoredFiles (snd (fetchRepoContent gh settle \<sigma> owner repo branch decodeContent
       ignoreGitIgnoreFiles outputFormat filterFn))
     = ignoredFiles (snd (enumeration gh \<sigma> owner repo branch ignoreGitIgnoreFiles filterFn))"
  by (simp add: fetchRepoContent_enumeration split: prod.splits sum.splits)

lemma enumeration_after_call:
  assumes "ignoredFiles \<sigma>'
      = ignoredFiles (snd (enumeration gh \<sigma> owner repo branch ignoreGitIgnoreFiles filterFn))"
  shows "fst (enumeration gh \<sigma>' owner repo branch ignoreGitIgnoreFiles filterFn)
       = fst (enumeration gh \<sigma> owner repo branch ignoreGitIgnoreFiles filterFn)"
proof (cases "rateLimit_get gh")
  case (Inl e)
  then show ?thesis by (simp add: fst_enumeration)
next
  case (Inr remaining)
  show ?thesis
  proof (cases "remaining = 0")
    case True
    with Inr show ?thesis by (simp add: fst_enumeration)
  next
    case False
    show ?thesis
    proof (cases ignoreGitIgnoreFiles)
      case True
      with Inr False assms
      have "ignoredFiles (snd (fetchRateLimit gh \<sigma>'))
          = ignoredFiles (loadGitignore gh (snd (fetchRateLimit gh \<sigma>)) owner repo)"
        by (simp add: ignoredFiles_enumeration ignoredFiles_fetchRateLimit)
      then have "ignoredFiles (loadGitignore gh (snd (fetchRateLimit gh \<sigma>')) owner repo)
          = ignoredFiles (loadGitignore gh (snd (fetchRateLimit gh \<sigma>)) owner repo)"
        by (rule loadGitignore_idem)
      then have "fst (getRepoFiles gh (loadGitignore gh (snd (fetchRateLimit gh \<sigma>')) owner repo)
                   owner repo branch filterFn)
          = fst (getRepoFiles gh (loadGitignore gh (snd (fetchRateLimit gh \<sigma>)) owner repo)
                   owner repo branch filterFn)"
        by (rule getRepoFiles_depends_on_ignoredFiles)
      with Inr False True show ?thesis by (simp add: fst_enumeration)
    next
      case no: False
      with Inr False assms
      have "ignoredFiles (snd (fetchRateLimit gh \<sigma>')) = ignoredFiles (snd (fetchRateLimit gh \<sigma>))"
        by (simp add: ignoredFiles_enumeration ignoredFiles_fetchRateLimit)
      then have "fst (getRepoFiles gh (snd (fetchRateLimit gh \<sigma>')) owner repo branch filterFn)
          = fst (getRepoFiles gh (snd (fetchRateLimit gh \<sigma>)) owner repo branch filterFn)"
        by (rule getRepoFiles_depends_on_ignoredFiles)
      with Inr False no show ?thesis by (simp add: fst_enumeration)
    qed
  qed
qed

lemma stream_depends_on_enumeration:
  assumes "fst (enumeration gh \<sigma>' owner repo branch ignoreGitIgnoreFiles filterFn)
       = fst (enumeration gh \<sigma> owner repo branch ignoreGitIgnoreFiles filterFn)"
  shows "fst (fetchRepoContentStream gh \<sigma>' owner repo branch decodeContent ignoreGitIgnoreFiles
            outputFormat filterFn)
       = fst (fetchRepoContentStream gh \<sigma> owner repo branch decodeContent ignoreGitIgnoreFiles
            outputFormat filterFn)
     \<and> fst (snd (fetchRepoContentStream gh \<sigma>' owner repo branch decodeContent
            ignoreGitIgnoreFiles outputFormat filterFn))
       = fst (snd (fetchRepoContentStream gh \<sigma> owner repo branch decodeContent
            ignoreGitIgnoreFiles outputFormat filterFn))"
proof -
  obtain r \<sigma>3 where e: "enumeration gh \<sigma> owner repo branch ignoreGitIgnoreFiles filterFn = (r, \<sigma>3)"
    by (cases "enumeration gh \<sigma> owner repo branch ignoreGitIgnoreFiles filterFn") auto
  with assms obtain \<sigma>3' where
    e': "enumeration gh \<sigma>' owner repo branch ignoreGitIgnoreFiles filterFn = (r, \<sigma>3')"
    by (cases "enumeration gh \<sigma>' owner repo branch ignoreGitIgnoreFiles filterFn") auto
  show ?thesis
  proof (cases r)
    case (Inl err)
    with e e' show ?thesis by (simp add: fetchRepoContentStream_enumeration)
  next
    case (Inr fs)
    with e e' stream_files_state [of gh \<sigma>3' owner repo fs decodeContent outputFormat \<sigma>3]
    show ?thesis by (simp add: fetchRepoContentStream_enumeration)
  qed
qed

lemma stream_after_batch:
  "fst (fetchRepoContentStream gh
          (snd (fetchRepoContent gh settle \<sigma> owner repo branch decodeContent ignoreGitIgnoreFiles
                  outputFormat filterFn))
          owner repo branch decodeContent ignoreGitIgnoreFiles outputFormat' filterFn)
     = fst (fetchRepoContentStream gh \<sigma> owner repo branch decodeContent ignoreGitIgnoreFiles
          outputFormat' filterFn)
   \<and> fst (snd (fetchRepoContentStream gh
          (snd (fetchRepoContent gh settle \<sigma> owner repo branch decodeContent ignoreGitIgnoreFiles
                  outputFormat filterFn))
          owner repo branch decodeContent ignoreGitIgnoreFiles outputFormat' filterFn))
     = fst (snd (fetchRepoContentStream gh \<sigma> owner repo branch decodeContent
          ignoreGitIgnoreFiles outputFormat' filterFn))"
  by (rule stream_depends_on_enumeration, rule enumeration_after_call)
    (rule ignoredFiles_fetchRepoContent)

section \<open>Streaming and batch\<close>

text \<open>
  C3. With the same snapshot, instance and arguments and the \<open>json\<close> format, the batch
  operation returns a collection exactly when the stream runs to its end without an
  error, and then the collections the stream yields, concatenated, are the batch
  collection: the same entries, and in the same order. It makes no difference whether
  the stream is run on the instance as the batch call found it or as the batch call left
  it: it yields the same items and ends the same way.
\<close>

theorem stream_collects_to_batch_json:
  "(fst (fetchRepoContent gh settle \<sigma> owner repo branch decodeContent ignoreGitIgnoreFiles
          (js ''json'') filterFn) = Inr (Collection files)
    \<longleftrightarrow>
    fst (snd (fetchRepoContentStream gh \<sigma> owner repo branch decodeContent ignoreGitIgnoreFiles
          (js ''json'') filterFn)) = None
    \<and> collect (fst (fetchRepoContentStream gh \<sigma> owner repo branch decodeContent
          ignoreGitIgnoreFiles (js ''json'') filterFn)) = files)
   \<and> fst (fetchRepoContentStream gh
          (snd (fetchRepoContent gh settle \<sigma> owner repo branch decodeContent ignoreGitIgnoreFiles
                  (js ''json'') filterFn))
          owner repo branch decodeContent ignoreGitIgnoreFiles (js ''json'') filterFn)
     = fst (fetchRepoContentStream gh \<sigma> owner repo branch decodeContent ignoreGitIgnoreFiles
          (js ''json'') filterFn)
   \<and> fst (snd (fetchRepoContentStream gh
          (snd (fetchRepoContent gh settle \<sigma> owner repo branch decodeContent ignoreGitIgnoreFiles
                  (js ''json'') filterFn))
          owner repo branch decodeContent ignoreGitIgnoreFiles (js ''json'') filterFn))
     = fst (snd (fetchRepoContentStream gh \<sigma> owner repo branch decodeContent
          ignoreGitIgnoreFiles (js ''json'') filterFn))"
proof -
  have same: "fst (fetchRepoContent gh settle \<sigma> owner repo branch decodeContent
          ignoreGitIgnoreFiles (js ''json'') filterFn) = Inr (Collection files)
    \<longleftrightarrow>
    fst (snd (fetchRepoContentStream gh \<sigma> owner repo branch decodeContent ignoreGitIgnoreFiles
          (js ''json'') filterFn)) = None
    \<and> collect (fst (fetchRepoContentStream gh \<sigma> owner repo branch decodeContent
          ignoreGitIgnoreFiles (js ''json'') filterFn)) = files"
  proof (cases "enumeration gh \<sigma> owner repo branch ignoreGitIgnoreFiles filterFn")
    case (Pair r \<sigma>3)
    show ?thesis
    proof (cases r)
      case (Inl e)
      with Pair show ?thesis
        by (simp add: fetchRepoContent_enumeration fetchRepoContentStream_enumeration)
    next
      case (Inr fs)
      obtain items thrown \<sigma>' where
        st: "stream_files gh \<sigma>3 owner repo fs decodeContent (js ''json'') = (items, thrown, \<sigma>')"
        by (cases "stream_files gh \<sigma>3 owner repo fs decodeContent (js ''json'')") auto
      note s = stream_files_json [OF st]
      show ?thesis
      proof (cases "\<forall>f \<in> set fs. \<not> isl (file_result gh owner repo f)")
        case True
        then have "Promise_all settle (map (file_result gh owner repo) fs)
                    = Inr (fulfilled (map (file_result gh owner repo) fs))"
          by (simp add: Promise_all_fulfilled)
        with True s Pair Inr st show ?thesis
          by (auto simp: fetchRepoContent_enumeration fetchRepoContentStream_enumeration
              formatOutput_json filter_Boolean_fulfilled)
      next
        case False
        then have "\<forall>xs. Promise_all settle (map (file_result gh owner repo) fs) \<noteq> Inr xs"
          by (simp add: Promise_all_fulfilled)
        then obtain e where "Promise_all settle (map (file_result gh owner repo) fs) = Inl e"
          by (cases "Promise_all settle (map (file_result gh owner repo) fs)") auto
        with False s Pair Inr st show ?thesis
          by (simp add: fetchRepoContent_enumeration fetchRepoContentStream_enumeration)
      qed
    qed
  qed
  from same stream_after_batch show ?thesis by blast
qed

theorem stream_collects_to_batch_json_witness:
  "fst (fetchRepoContent example_github id (constructor [] None) (js ''o'') (js ''B'')
          (js ''main'') False True (js ''json'') None)
     = Inr (Collection [\<lparr>path = js ''a.txt'', content = js ''hi''\<rparr>,
                        \<lparr>path = js ''secret/key.pem'', content = [0x20AC, 0xFFFD]\<rparr>])
   \<and> fst (snd (fetchRepoContentStream example_github (constructor [] None) (js ''o'') (js ''B'')
          (js ''main'') False True (js ''json'') None)) = None
   \<and> collect (fst (fetchRepoContentStream example_github (constructor [] None) (js ''o'')
          (js ''B'') (js ''main'') False True (js ''json'') None))
     = [\<lparr>path = js ''a.txt'', content = js ''hi''\<rparr>,
        \<lparr>path = js ''secret/key.pem'', content = [0x20AC, 0xFFFD]\<rparr>]"
  using example_batch_B [of id False]
    stream_collects_to_batch_json [THEN conjunct1, THEN iffD1, OF example_batch_B [of id False]]
  by blast

section \<open>Order and content of the batch result\<close>

lemma batch_json_result:
  assumes "fst (enumeration gh \<sigma> owner repo branch ignoreGitIgnoreFiles filterFn) = Inr files"
  shows "fst (fetchRepoContent gh settle \<sigma> owner repo branch decodeContent ignoreGitIgnoreFiles
                (js ''json'') filterFn) = Inr (Collection out)
         \<longleftrightarrow> (\<forall>f \<in> set files. \<not> isl (file_result gh owner repo f))
             \<and> out = entries_of gh owner repo files"
proof (cases "\<forall>f \<in> set files. \<not> isl (file_result gh owner repo f)")
  case True
  then have "Promise_all settle (map (file_result gh owner repo) files)
              = Inr (fulfilled (map (file_result gh owner repo) files))"
    by (simp add: Promise_all_fulfilled)
  with True assms show ?thesis
    by (auto simp: fetchRepoContent_enumeration formatOutput_json filter_Boolean_fulfilled
        split: prod.splits)
next
  case False
  then have "\<forall>xs. Promise_all settle (map (file_result gh owner repo) files) \<noteq> Inr xs"
    by (simp add: Promise_all_fulfilled)
  then obtain e where "Promise_all settle (map (file_result gh owner repo) files) = Inl e"
    by (cases "Promise_all settle (map (file_result gh owner repo) files)") auto
  with False assms show ?thesis
    by (auto simp: fetchRepoContent_enumeration split: prod.splits)
qed

lemma stream_json_result:
  assumes "fst (enumeration gh \<sigma> owner repo branch ignoreGitIgnoreFiles filterFn) = Inr files"
    and "fst (snd (fetchRepoContentStream gh \<sigma> owner repo branch decodeContent
            ignoreGitIgnoreFiles (js ''json'') filterFn)) = None"
  shows "collect (fst (fetchRepoContentStream gh \<sigma> owner repo branch decodeContent
            ignoreGitIgnoreFiles (js ''json'') filterFn)) = entries_of gh owner repo files"
proof -
  obtain \<sigma>3 where e: "enumeration gh \<sigma> owner repo branch ignoreGitIgnoreFiles filterFn
      = (Inr files, \<sigma>3)"
    using assms(1) by (cases "enumeration gh \<sigma> owner repo branch ignoreGitIgnoreFiles filterFn") auto
  obtain items thrown \<sigma>' where
    st: "stream_files gh \<sigma>3 owner repo files decodeContent (js ''json'') = (items, thrown, \<sigma>')"
    by (cases "stream_files gh \<sigma>3 owner repo files decodeContent (js ''json'')") auto
  from stream_files_json [OF st] assms(2) e st show ?thesis
    by (simp add: fetchRepoContentStream_enumeration)
qed

lemma path_entries_of:
  "map path (entries_of gh owner repo files) = map path (filter (content_bearing gh owner repo) files)"
  by (induction files)
    (simp_all add: entries_of_Nil entries_of_Cons content_bearing_def entry_of_def
      split: sum.splits option.splits)

lemma getRepoFiles_eligible:
  assumes "getRepoFiles gh \<sigma> owner repo branch filterFn = (Inr files, \<sigma>')"
  shows "ignoredFiles \<sigma>' = ignoredFiles \<sigma>"
    and "\<forall>f \<in> set files. type f = js ''blob'' \<and> path f \<notin> ignoredFiles \<sigma>"
  using assms
  by (auto simp: getRepoFiles_def wrapWithRateLimit_def
      split: sum.splits option.splits if_splits)

lemma enumeration_eligible:
  assumes "fst (enumeration gh \<sigma> owner repo branch ignoreGitIgnoreFiles filterFn) = Inr files"
  shows "\<forall>f \<in> set files. type f = js ''blob''
           \<and> path f \<notin> ignoredFiles (snd (enumeration gh \<sigma> owner repo branch ignoreGitIgnoreFiles filterFn))"
proof -
  obtain \<sigma>3 where e: "enumeration gh \<sigma> owner repo branch ignoreGitIgnoreFiles filterFn
      = (Inr files, \<sigma>3)"
    using assms by (cases "enumeration gh \<sigma> owner repo branch ignoreGitIgnoreFiles filterFn") auto
  then obtain \<sigma>2 where "getRepoFiles gh \<sigma>2 owner repo branch filterFn = (Inr files, \<sigma>3)"
    by (auto simp: enumeration_def split: prod.splits sum.splits if_splits)
  from getRepoFiles_eligible [OF this] e show ?thesis by simp
qed

lemma example_batch_A:
  "fst (fetchRepoContent example_github settle (constructor [] None) (js ''o'') (js ''A'')
          (js ''main'') decodeContent True (js ''json'') None)
     = Inr (Collection [\<lparr>path = js ''secret/key.pem'', content = [0x20AC, 0xFFFD]\<rparr>])"
  by (simp add: fetchRepoContent_enumeration example_enumeration_A example_results
      Promise_all_def formatOutput_json)



section \<open>Entries without content\<close>

text \<open>
  C7. A response without a content payload makes \<open>fetchFileContent\<close> return the absent
  value, not an error. With the \<open>json\<close> format both modes leave such results out and
  go on. The batch call returns a collection exactly when no content request fails, and
  the collection then holds one entry per enumerated file with a payload (its path with
  the decoded payload, in the enumeration's order) and none for a file without one. The
  stream ends without an error exactly when no content request fails, and it yields, one
  collection of one entry each, the entries of the enumerated files up to the first
  failing request. Every enumerated file is a blob whose path is not excluded.
\<close>

theorem contentless_entries_are_left_out:
  "(repos_getContent gh owner repo (path (file :: tree_item)) = Inr None \<longrightarrow>
      fst (fetchFileContent gh \<sigma>0 owner repo file decodeContent) = Inr None)
   \<and> (\<forall>fs. entries_of gh owner repo fs
          = concat (map (\<lambda>f. case repos_getContent gh owner repo (path f) of
                                 Inr (Some data) \<Rightarrow>
                                   [\<lparr>path = path f,
                                     content = toString_utf8 (Buffer_from_base64 data)\<rparr>]
                               | _ \<Rightarrow> []) fs)
        \<and> length (entries_of gh owner repo fs)
          = length (filter (content_bearing gh owner repo) fs))
   \<and> (fst (enumeration gh \<sigma> owner repo branch ignoreGitIgnoreFiles filterFn) = Inr files \<longrightarrow>
        (\<forall>f \<in> set files. type f = js ''blob''
           \<and> path f \<notin> ignoredFiles
                (snd (enumeration gh \<sigma> owner repo branch ignoreGitIgnoreFiles filterFn)))
      \<and> (fst (fetchRepoContent gh settle \<sigma> owner repo branch decodeContent ignoreGitIgnoreFiles
                (js ''json'') filterFn) = Inr (Collection out)
          \<longleftrightarrow> (\<forall>f \<in> set files. \<not> isl (repos_getContent gh owner repo (path f)))
              \<and> out = entries_of gh owner repo files)
      \<and> (fst (snd (fetchRepoContentStream gh \<sigma> owner repo branch decodeContent
                ignoreGitIgnoreFiles (js ''json'') filterFn)) = None
          \<longleftrightarrow> (\<forall>f \<in> set files. \<not> isl (repos_getContent gh owner repo (path f))))
      \<and> fst (fetchRepoContentStream gh \<sigma> owner repo branch decodeContent
                ignoreGitIgnoreFiles (js ''json'') filterFn)
          = map (\<lambda>entry. Collection [entry])
              (entries_of gh owner repo
                 (takeWhile (\<lambda>f. \<not> isl (repos_getContent gh owner repo (path f))) files)))"
proof -
  have absent: "fst (fetchFileContent gh \<sigma>0 owner repo file decodeContent) = Inr None"
    if "repos_getContent gh owner repo (path file) = Inr None"
    using that by (simp add: fetchFileContent_result file_result_def)
  have entries: "entries_of gh owner repo fs
      = concat (map (\<lambda>f. case repos_getContent gh owner repo (path f) of
                             Inr (Some data) \<Rightarrow>
                               [\<lparr>path = path f, content = toString_utf8 (Buffer_from_base64 data)\<rparr>]
                           | _ \<Rightarrow> []) fs)" for fs
    unfolding entries_of_def entry_of_def ..
  have count: "length (entries_of gh owner repo fs)
      = length (filter (content_bearing gh owner repo) fs)" for fs
  proof -
    have "length (map path (entries_of gh owner repo fs))
        = length (map path (filter (content_bearing gh owner repo) fs))"
      by (simp only: path_entries_of)
    then show ?thesis by simp
  qed
  have batch: "fst (fetchRepoContent gh settle \<sigma> owner repo branch decodeContent
                ignoreGitIgnoreFiles (js ''json'') filterFn) = Inr (Collection out)
          \<longleftrightarrow> (\<forall>f \<in> set files. \<not> isl (repos_getContent gh owner repo (path f)))
              \<and> out = entries_of gh owner repo files"
    if "fst (enumeration gh \<sigma> owner repo branch ignoreGitIgnoreFiles filterFn) = Inr files"
    using batch_json_result [OF that] by (simp add: isl_file_result)
  have stream: "(fst (snd (fetchRepoContentStream gh \<sigma> owner repo branch decodeContent
                ignoreGitIgnoreFiles (js ''json'') filterFn)) = None
          \<longleftrightarrow> (\<forall>f \<in> set files. \<not> isl (repos_getContent gh owner repo (path f))))
      \<and> fst (fetchRepoContentStream gh \<sigma> owner repo branch decodeContent
                ignoreGitIgnoreFiles (js ''json'') filterFn)
          = map (\<lambda>entry. Collection [entry])
              (entries_of gh owner repo
                 (takeWhile (\<lambda>f. \<not> isl (repos_getContent gh owner repo (path f))) files))"
    if e: "fst (enumeration gh \<sigma> owner repo branch ignoreGitIgnoreFiles filterFn) = Inr files"
  proof -
    obtain \<sigma>3 where "enumeration gh \<sigma> owner repo branch ignoreGitIgnoreFiles filterFn
        = (Inr files, \<sigma>3)"
      using e by (cases "enumeration gh \<sigma> owner repo branch ignoreGitIgnoreFiles filterFn") auto
    then show ?thesis
      by (simp add: fetchRepoContentStream_enumeration stream_files_json_thrown
          stream_files_json_items)
  qed
  from absent entries count enumeration_eligible batch stream show ?thesis
    by blast
qed


theorem contentless_entries_are_left_out_witness:
  "repos_getContent example_github (js ''o'') (js ''A'') (js ''link'') = Inr None
   \<and> fst (fetchFileContent example_github (constructor [] None) (js ''o'') (js ''A'')
           \<lparr>path = js ''link'', type = js ''blob''\<rparr> False) = Inr None
   \<and> fst (enumeration example_github (constructor [] None) (js ''o'') (js ''A'') (js ''main'')
           True None)
       = Inr [\<lparr>path = js ''secret/key.pem'', type = js ''blob''\<rparr>,
              \<lparr>path = js ''link'', type = js ''blob''\<rparr>]
   \<and> fst (fetchRepoContent example_github id (constructor [] None) (js ''o'') (js ''A'')
          (js ''main'') False True (js ''json'') None)
       = Inr (Collection [\<lparr>path = js ''secret/key.pem'', content = [0x20AC, 0xFFFD]\<rparr>])
   \<and> fst (snd (fetchRepoContentStream example_github (constructor [] None) (js ''o'') (js ''A'')
          (js ''main'') False True (js ''json'') None)) = None
   \<and> fst (fetchRepoContentStream example_github (constructor [] None) (js ''o'') (js ''A'')
          (js ''main'') False True (js ''json'') None)
       = [Collection [\<lparr>path = js ''secret/key.pem'', content = [0x20AC, 0xFFFD]\<rparr>]]
   \<and> length (filter (content_bearing example_github (js ''o'') (js ''A''))
           [\<lparr>path = js ''secret/key.pem'', type = js ''blob''\<rparr>,
            \<lparr>path = js ''link'', type = js ''blob''\<rparr>]) = 1"
proof -
  let ?files = "[\<lparr>path = js ''secret/key.pem'', type = js ''blob''\<rparr>,
                 \<lparr>path = js ''link'', type = js ''blob''\<rparr>]"
  let ?out = "[\<lparr>path = js ''secret/key.pem'', content = [0x20AC, 0xFFFD]\<rparr>]"
  have l: "repos_getContent example_github (js ''o'') (js ''A'')
      (path \<lparr>path = js ''link'', type = js ''blob''\<rparr>) = Inr None"
    by (simp add: example_link)
  have e: "fst (enumeration example_github (constructor [] None) (js ''o'') (js ''A'') (js ''main'')
      True None) = Inr ?files"
    by (simp add: example_enumeration_A)
  have ok: "\<forall>f \<in> set ?files. \<not> isl (repos_getContent example_github (js ''o'') (js ''A'') (path f))"
    by (simp add: example_key_pem example_link)
  have ent: "entries_of example_github (js ''o'') (js ''A'') ?files = ?out"
    by (simp add: entries_of_def entry_of_def example_key_pem example_link example_key_pem_text)
  have tw: "takeWhile (\<lambda>f. \<not> isl (repos_getContent example_github (js ''o'') (js ''A'') (path f)))
      ?files = ?files"
    by (simp add: example_key_pem example_link)
  note inst = contentless_entries_are_left_out
    [of example_github "js ''o''" "js ''A''" "\<lparr>path = js ''link'', type = js ''blob''\<rparr>"
        "constructor [] None" False "constructor [] None" "js ''main''" True None ?files id ?out]
  note after = inst [THEN conjunct2, THEN conjunct2, THEN mp, OF e]
  from inst l have 1: "fst (fetchFileContent example_github (constructor [] None) (js ''o'')
      (js ''A'') \<lparr>path = js ''link'', type = js ''blob''\<rparr> False) = Inr None"
    by (rule conjunct1 [THEN mp])
  have 2: "fst (fetchRepoContent example_github id (constructor [] None)
      (js ''o'') (js ''A'') (js ''main'') False True (js ''json'') None) = Inr (Collection ?out)"
    using after [THEN conjunct2, THEN conjunct1] ok ent by simp
  have 3: "fst (snd (fetchRepoContentStream example_github (constructor [] None)
      (js ''o'') (js ''A'') (js ''main'') False True (js ''json'') None)) = None"
    using after [THEN conjunct2, THEN conjunct2, THEN conjunct1] ok by simp
  have 4: "fst (fetchRepoContentStream example_github (constructor [] None) (js ''o'')
      (js ''A'') (js ''main'') False True (js ''json'') None) = [Collection
        [\<lparr>path = js ''secret/key.pem'', content = [0x20AC, 0xFFFD]\<rparr>]]"
    using after [THEN conjunct2, THEN conjunct2, THEN conjunct2] unfolding tw ent by simp
  have 5: "length (filter (content_bearing example_github (js ''o'') (js ''A'')) ?files) = 1"
    using inst [THEN conjunct2, THEN conjunct1, THEN spec, of ?files, THEN conjunct2]
    unfolding ent by simp
  from 1 2 3 4 5 e example_link [of "js ''o''" "js ''A''"] show ?thesis by blast
qed

section \<open>Output formats\<close>

lemma well_formed_Nil [simp]: "well_formed []"
  by (simp add: well_formed_def)

lemma well_formed_Cons [simp]: "well_formed (c # s) \<longleftrightarrow> scalar c \<and> well_formed s"
  by (simp add: well_formed_def)

lemma well_formed_append [simp]: "well_formed (a @ b) \<longleftrightarrow> well_formed a \<and> well_formed b"
  by (simp add: well_formed_def)

lemma well_formed_js [simp]: "well_formed (js s)"
proof -
  have "scalar (of_char c)" for c
    using nat_of_char_less_256 [of c] unfolding scalar_def by arith
  then show ?thesis by (simp add: well_formed_def js_def list_all_iff)
qed

lemma well_formed_render:
  "well_formed (path f) \<Longrightarrow> well_formed (content f) \<Longrightarrow> well_formed (render f)"
  by (simp add: render_def scalar_def)

lemma well_formed_join:
  "\<forall>x \<in> set xs. well_formed x \<Longrightarrow> well_formed sep \<Longrightarrow> well_formed (join sep xs)"
  by (induction sep xs rule: join.induct) simp_all

lemma fetched_content_well_formed:
  "fetchFileContent gh \<sigma> owner repo file decodeContent = (Inr (Some fetched), \<sigma>') \<Longrightarrow>
     well_formed (content fetched)"
  by (auto simp: fetchFileContent_result file_result_def entry_of_def toString_utf8_well_formed
      split: sum.splits option.splits)

lemma unpaired_surrogate_text:
  "join newline (map render [\<lparr>path = [0x78, 0xD800], content = []\<rparr>])
     = js ''File: x'' @ [0xD800] @ newline @ js ''Content:'' @ newline @ newline @ js ''---''
         @ newline"
  by (simp add: render_def js_def)

lemma unpaired_surrogate_bytes:
  "Buffer_from_utf8
     (js ''File: x'' @ [0xD800] @ newline @ js ''Content:'' @ newline @ newline @ js ''---''
        @ newline)
     = [0x46, 0x69, 0x6C, 0x65, 0x3A, 0x20, 0x78, 0xEF, 0xBF, 0xBD, 0x0A,
        0x43, 0x6F, 0x6E, 0x74, 0x65, 0x6E, 0x74, 0x3A, 0x0A, 0x0A, 0x2D, 0x2D, 0x2D, 0x0A]"
  by (simp add: js_def Buffer_from_utf8_def utf8_encode_def utf8_encode_cp_def scalar_def)

lemma unpaired_surrogate_decoded:
  "toString_utf8
     [0x46, 0x69, 0x6C, 0x65, 0x3A, 0x20, 0x78, 0xEF, 0xBF, 0xBD, 0x0A,
      0x43, 0x6F, 0x6E, 0x74, 0x65, 0x6E, 0x74, 0x3A, 0x0A, 0x0A, 0x2D, 0x2D, 0x2D, 0x0A]
     = js ''File: x'' @ [0xFFFD] @ newline @ js ''Content:'' @ newline @ newline @ js ''---''
         @ newline"
  by (simp add: js_def toString_utf8_def utf8_next_def utf8_next3_def is_second_def
      lower_boundary_def upper_boundary_def is_continuation_def value3_def)


text \<open>
  C8, as it holds. For files whose paths and contents are Unicode text (no unpaired
  surrogate), the bytes of the \<open>buffer\<close> output, decoded as UTF-8, are the \<open>string\<close>
  output for the same files. Every content that \<open>fetchFileContent\<close> returns is such
  text, being the result of a UTF-8 decoding; the path is the entry's path as the tree
  listing gave it.
\<close>

theorem buffer_output_decodes_to_string_output:
  "((\<forall>f \<in> set files. well_formed (path f) \<and> well_formed (content f)) \<longrightarrow>
      (\<exists>text bytes. formatOutput files (js ''string'') = Inr (Text text)
           \<and> formatOutput files (js ''buffer'') = Inr (Bytes bytes)
           \<and> toString_utf8 bytes = text))
   \<and> (fetchFileContent gh \<sigma> owner repo (file :: tree_item) decodeContent
         = (Inr (Some fetched), \<sigma>') \<longrightarrow>
        well_formed (content fetched) \<and> path fetched = path file)"
proof -
  have formats: "\<exists>text bytes. formatOutput files (js ''string'') = Inr (Text text)
           \<and> formatOutput files (js ''buffer'') = Inr (Bytes bytes)
           \<and> toString_utf8 bytes = text"
    if "\<forall>f \<in> set files. well_formed (path f) \<and> well_formed (content f)"
  proof -
    from that have "\<forall>x \<in> set (map render files). well_formed x"
      by (simp add: well_formed_render)
    then have "well_formed (join newline (map render files))"
      by (rule well_formed_join) (simp add: scalar_def)
    then have "toString_utf8 (Buffer_from_utf8 (join newline (map render files)))
        = join newline (map render files)"
      by (rule toString_Buffer_from_utf8)
    then show ?thesis by (simp add: formatOutput_def)
  qed
  have fetched: "well_formed (content fetched) \<and> path fetched = path file"
    if "fetchFileContent gh \<sigma> owner repo file decodeContent = (Inr (Some fetched), \<sigma>')"
    using that
    by (auto simp: fetchFileContent_result file_result_def entry_of_def toString_utf8_well_formed
        split: sum.splits option.splits)
  from formats fetched show ?thesis by blast
qed

theorem buffer_output_decodes_to_string_output_witness:
  "well_formed (js ''a.txt'') \<and> well_formed (js ''hi'')
   \<and> well_formed (js ''secret/key.pem'') \<and> well_formed [0x20AC, 0xFFFD]
   \<and> (\<exists>text bytes.
        formatOutput [\<lparr>path = js ''a.txt'', content = js ''hi''\<rparr>,
                      \<lparr>path = js ''secret/key.pem'', content = [0x20AC, 0xFFFD]\<rparr>] (js ''string'')
          = Inr (Text text)
        \<and> formatOutput [\<lparr>path = js ''a.txt'', content = js ''hi''\<rparr>,
                        \<lparr>path = js ''secret/key.pem'', content = [0x20AC, 0xFFFD]\<rparr>] (js ''buffer'')
          = Inr (Bytes bytes)
        \<and> toString_utf8 bytes = text)
   \<and> fetchFileContent example_github (constructor [] None) (js ''o'') (js ''A'')
        \<lparr>path = js ''secret/key.pem'', type = js ''blob''\<rparr> False
      = (Inr (Some \<lparr>path = js ''secret/key.pem'', content = [0x20AC, 0xFFFD]\<rparr>),
         (constructor [] None)
           \<lparr>requests := [GetContent (js ''o'') (js ''A'') (js ''secret/key.pem'')]\<rparr>)"
proof -
  have w: "\<forall>f \<in> set [\<lparr>path = js ''a.txt'', content = js ''hi''\<rparr>,
                \<lparr>path = js ''secret/key.pem'', content = [0x20AC, 0xFFFD]\<rparr>].
      well_formed (path f) \<and> well_formed (content f)"
    by (simp add: scalar_def)
  have f: "fetchFileContent example_github (constructor [] None) (js ''o'') (js ''A'')
        \<lparr>path = js ''secret/key.pem'', type = js ''blob''\<rparr> False
      = (Inr (Some \<lparr>path = js ''secret/key.pem'', content = [0x20AC, 0xFFFD]\<rparr>),
         (constructor [] None)
           \<lparr>requests := [GetContent (js ''o'') (js ''A'') (js ''secret/key.pem'')]\<rparr>)"
    by (simp add: fetchFileContent_result example_results constructor_def)
  note inst = buffer_output_decodes_to_string_output
    [of "[\<lparr>path = js ''a.txt'', content = js ''hi''\<rparr>,
          \<lparr>path = js ''secret/key.pem'', content = [0x20AC, 0xFFFD]\<rparr>]"
        example_github "constructor [] None" "js ''o''" "js ''A''"
        "\<lparr>path = js ''secret/key.pem'', type = js ''blob''\<rparr>" False
        "\<lparr>path = js ''secret/key.pem'', content = [0x20AC, 0xFFFD]\<rparr>"
        "(constructor [] None)
           \<lparr>requests := [GetContent (js ''o'') (js ''A'') (js ''secret/key.pem'')]\<rparr>"]
  from inst [THEN conjunct2, THEN mp, OF f] have "well_formed [0x20AC, 0xFFFD]"
    by simp
  with inst [THEN conjunct1, THEN mp, OF w] f show ?thesis
    by simp
qed

text \<open>
  C8, as stated, fails. A path with an unpaired surrogate, \<open>x\<close> followed by U+D800, is
  encoded with U+FFFD in place of the surrogate, so the decoded \<open>buffer\<close> output differs
  from the \<open>string\<close> output.
\<close>

theorem buffer_output_of_unpaired_surrogate_counterexample:
  "formatOutput [\<lparr>path = [0x78, 0xD800], content = []\<rparr>] (js ''string'')
     = Inr (Text (js ''File: x'' @ [0xD800] @ newline @ js ''Content:'' @ newline @ newline
                   @ js ''---'' @ newline))
   \<and> formatOutput [\<lparr>path = [0x78, 0xD800], content = []\<rparr>] (js ''buffer'')
     = Inr (Bytes [0x46, 0x69, 0x6C, 0x65, 0x3A, 0x20, 0x78, 0xEF, 0xBF, 0xBD, 0x0A,
                   0x43, 0x6F, 0x6E, 0x74, 0x65, 0x6E, 0x74, 0x3A, 0x0A, 0x0A, 0x2D, 0x2D, 0x2D, 0x0A])
   \<and> toString_utf8 [0x46, 0x69, 0x6C, 0x65, 0x3A, 0x20, 0x78, 0xEF, 0xBF, 0xBD, 0x0A,
                   0x43, 0x6F, 0x6E, 0x74, 0x65, 0x6E, 0x74, 0x3A, 0x0A, 0x0A, 0x2D, 0x2D, 0x2D, 0x0A]
     \<noteq> js ''File: x'' @ [0xD800] @ newline @ js ''Content:'' @ newline @ newline
                   @ js ''---'' @ newline"
proof -
  have "formatOutput [\<lparr>path = [0x78, 0xD800], content = []\<rparr>] (js ''string'')
     = Inr (Text (js ''File: x'' @ [0xD800] @ newline @ js ''Content:'' @ newline @ newline
                   @ js ''---'' @ newline))"
    unfolding formatOutput_def unpaired_surrogate_text by simp
  moreover have "formatOutput [\<lparr>path = [0x78, 0xD800], content = []\<rparr>] (js ''buffer'')
     = Inr (Bytes [0x46, 0x69, 0x6C, 0x65, 0x3A, 0x20, 0x78, 0xEF, 0xBF, 0xBD, 0x0A,
                   0x43, 0x6F, 0x6E, 0x74, 0x65, 0x6E, 0x74, 0x3A, 0x0A, 0x0A, 0x2D, 0x2D, 0x2D, 0x0A])"
    unfolding formatOutput_def unpaired_surrogate_text unpaired_surrogate_bytes by simp
  moreover have "toString_utf8 [0x46, 0x69, 0x6C, 0x65, 0x3A, 0x20, 0x78, 0xEF, 0xBF, 0xBD, 0x0A,
                   0x43, 0x6F, 0x6E, 0x74, 0x65, 0x6E, 0x74, 0x3A, 0x0A, 0x0A, 0x2D, 0x2D, 0x2D, 0x0A]
     \<noteq> js ''File: x'' @ [0xD800] @ newline @ js ''Content:'' @ newline @ newline
                   @ js ''---'' @ newline"
    unfolding unpaired_surrogate_decoded by (simp add: js_def)
  ultimately show ?thesis by blast
qed

section \<open>The exclusion set across calls\<close>

lemma failed_ignore_load_is_no_error:
  assumes "repos_getContent gh owner repo (js ''.gitignore'') = Inl e
         \<or> repos_getContent gh owner repo (js ''.gitignore'') = Inr None"
  shows "fst (fetchRepoContent gh settle \<sigma> owner repo branch decodeContent True outputFormat filterFn)
       = fst (fetchRepoContent gh settle \<sigma> owner repo branch decodeContent False outputFormat filterFn)"
proof -
  have "fst (getRepoFiles gh (loadGitignore gh \<sigma>1 owner repo) owner repo branch filterFn)
      = fst (getRepoFiles gh \<sigma>1 owner repo branch filterFn)" for \<sigma>1
    by (rule getRepoFiles_depends_on_ignoredFiles) (rule loadGitignore_failure [OF assms])
  then have "fst (enumeration gh \<sigma> owner repo branch True filterFn)
      = fst (enumeration gh \<sigma> owner repo branch False filterFn)"
    by (simp add: enumeration_def split: prod.splits sum.splits)
  then show ?thesis
    by (simp add: fst_fetchRepoContent)
qed

lemma example_enumeration_unfiltered:
  "enumeration example_github \<sigma> owner repo (js ''main'') False None =
     (Inr (filter (\<lambda>item. type item = js ''blob'' \<and> path item \<notin> ignoredFiles \<sigma>) example_tree),
      \<sigma>\<lparr>requests := requests \<sigma> @ [RateLimitGet, GetCommit owner repo (js ''main''),
                                   GetTree owner repo (js ''t1'')]\<rparr>)"
  by (simp add: enumeration_def fetchRateLimit_def wrapWithRateLimit_def example_rateLimit
      example_getRepoFiles)

lemma example_enumeration_B_any:
  "enumeration example_github \<sigma> owner (js ''B'') (js ''main'') True None =
     (Inr (filter (\<lambda>item. type item = js ''blob'' \<and> path item \<notin> ignoredFiles \<sigma>) example_tree),
      \<sigma>\<lparr>requests := requests \<sigma> @ [RateLimitGet, GetContent owner (js ''B'') (js ''.gitignore''),
                                   GetCommit owner (js ''B'') (js ''main''),
                                   GetTree owner (js ''B'') (js ''t1'')]\<rparr>)"
  by (simp add: enumeration_def fetchRateLimit_def wrapWithRateLimit_def example_rateLimit
      example_loadGitignore_B example_getRepoFiles)

lemma example_first_call:
  "snd (fetchRepoContent example_github settle (constructor [] None) (js ''o'') (js ''A'')
          (js ''main'') decodeContent True (js ''json'') None)
     = (constructor [] None)
         \<lparr>requests := [RateLimitGet, GetContent (js ''o'') (js ''A'') (js ''.gitignore''),
                       GetCommit (js ''o'') (js ''A'') (js ''main''),
                       GetTree (js ''o'') (js ''A'') (js ''t1''),
                       GetContent (js ''o'') (js ''A'') (js ''secret/key.pem''),
                       GetContent (js ''o'') (js ''A'') (js ''link'')],
          ignoredFiles := {js ''a.txt'', js ''secret/''}\<rparr>"
  by (simp add: fetchRepoContent_enumeration example_enumeration_A)

text \<open>
  C4, evaluated. A first call on repository \<open>A\<close> loads its ignore file and stores
  \<open>{a.txt, secret/}\<close> in the instance. A second call on the same instance with
  \<open>ignoreGitIgnoreFiles\<close> unset still leaves \<open>a.txt\<close> out, while the same call on a new
  instance returns it: the exclusion set of the second call is the one the first call
  left behind.
\<close>

theorem exclusions_outlive_the_call:
  "ignoredFiles (snd (fetchRepoContent example_github id (constructor [] None) (js ''o'') (js ''A'')
          (js ''main'') False True (js ''json'') None)) = {js ''a.txt'', js ''secret/''}
   \<and> fst (fetchRepoContent example_github id
          (snd (fetchRepoContent example_github id (constructor [] None) (js ''o'') (js ''A'')
                  (js ''main'') False True (js ''json'') None))
          (js ''o'') (js ''A'') (js ''main'') False False (js ''json'') None)
       = Inr (Collection [\<lparr>path = js ''secret/key.pem'', content = [0x20AC, 0xFFFD]\<rparr>])
   \<and> fst (fetchRepoContent example_github id (constructor [] None)
          (js ''o'') (js ''A'') (js ''main'') False False (js ''json'') None)
       = Inr (Collection [\<lparr>path = js ''a.txt'', content = js ''hi''\<rparr>,
                          \<lparr>path = js ''secret/key.pem'', content = [0x20AC, 0xFFFD]\<rparr>])"
  unfolding example_first_call
  by (simp add: fetchRepoContent_enumeration example_enumeration_unfiltered
      example_tree_def example_results Promise_all_def formatOutput_json constructor_ignoredFiles)

text \<open>
  C5, evaluated. Repository \<open>B\<close> has no ignore file: the request fails. On a new
  instance the call on \<open>B\<close> is not disturbed by that and returns every blob with content.
  On an instance that has served a call on \<open>A\<close> before, the same call returns no error
  either, but it leaves \<open>a.txt\<close> out: after the failed load the exclusion set is the one
  loaded for \<open>A\<close>, not the empty set.
\<close>

theorem failed_ignore_load_keeps_earlier_exclusions:
  "repos_getContent example_github (js ''o'') (js ''B'') (js ''.gitignore'') = Inl (RequestError 404)
   \<and> fst (fetchRepoContent example_github id
          (snd (fetchRepoContent example_github id (constructor [] None) (js ''o'') (js ''A'')
                  (js ''main'') False True (js ''json'') None))
          (js ''o'') (js ''B'') (js ''main'') False True (js ''json'') None)
       = Inr (Collection [\<lparr>path = js ''secret/key.pem'', content = [0x20AC, 0xFFFD]\<rparr>])
   \<and> fst (fetchRepoContent example_github id (constructor [] None)
          (js ''o'') (js ''B'') (js ''main'') False True (js ''json'') None)
       = Inr (Collection [\<lparr>path = js ''a.txt'', content = js ''hi''\<rparr>,
                          \<lparr>path = js ''secret/key.pem'', content = [0x20AC, 0xFFFD]\<rparr>])"
  unfolding example_first_call
  by (simp add: fetchRepoContent_enumeration example_enumeration_B_any
      example_gitignore_B example_tree_def example_results Promise_all_def formatOutput_json
      constructor_ignoredFiles)

end
